theory Spec2Isabelle
  imports Main "HOL-Library.Word" "HOL-Library.Char_ord"
begin

unbundle bit_operations_syntax

section \<open>C strings and the character classes of ctype.h\<close>

text \<open>
  A C string is modelled by the list of its characters up to (not including) the
  terminating NUL; a \<open>char *\<close> that may be \<open>NULL\<close> is a \<open>string option\<close>.
  The character classes are those of the "C" locale.

  The model covers the runs of the program in which every allocation succeeds, every
  file opens, no file holds a NUL character, neither counter overflows and no token is
  longer than the buffer it is copied into with \<open>sscanf\<close> or \<open>strcpy\<close> (the operand
  buffers and the macro name buffer hold 31 characters): a longer token overruns the
  buffer, and what the program does then is not defined by its source. Where
  \<open>strncpy\<close> cuts a label or an operation to 31 characters, the byte after them is taken
  to be NUL. A file is the string of its characters.
\<close>

definition isspace :: "char \<Rightarrow> bool" where
  "isspace c = (c = CHR '' '' \<or> c = CHR 0x09 \<or> c = CHR 0x0A \<or> c = CHR 0x0B
                \<or> c = CHR 0x0C \<or> c = CHR 0x0D)"

definition isdigit :: "char \<Rightarrow> bool" where
  "isdigit c = (CHR ''0'' \<le> c \<and> c \<le> CHR ''9'')"

definition isalpha :: "char \<Rightarrow> bool" where
  "isalpha c = ((CHR ''a'' \<le> c \<and> c \<le> CHR ''z'') \<or> (CHR ''A'' \<le> c \<and> c \<le> CHR ''Z''))"

definition isalnum :: "char \<Rightarrow> bool" where
  "isalnum c = (isalpha c \<or> isdigit c)"

section \<open>Opcode catalog (opcode\_table.c)\<close>

definition opcode_table :: "(string \<times> int \<times> int) list" where
  "opcode_table =
    [(''mov'', 0, 2), (''cmp'', 1, 2), (''add'', 2, 2), (''sub'', 3, 2),
     (''lea'', 4, 2), (''clr'', 5, 1), (''not'', 6, 1), (''inc'', 7, 1),
     (''dec'', 8, 1), (''jmp'', 9, 1), (''bne'', 10, 1), (''red'', 11, 1),
     (''prn'', 12, 1), (''jsr'', 13, 1), (''rts'', 14, 0), (''stop'', 15, 0)]"

definition get_opcode :: "string \<Rightarrow> int" where
  "get_opcode mnemonic =
     (case find (\<lambda>e. fst e = mnemonic) opcode_table of
        Some e \<Rightarrow> fst (snd e)
      | None \<Rightarrow> -1)"

definition get_operand_count :: "string \<Rightarrow> int" where
  "get_operand_count mnemonic =
     (case find (\<lambda>e. fst e = mnemonic) opcode_table of
        Some e \<Rightarrow> snd (snd e)
      | None \<Rightarrow> -1)"

section \<open>Lexical utilities\<close>

text \<open>\<open>trim\<close>: drop the leading white space, then the trailing white space.\<close>

definition trim :: "string \<Rightarrow> string" where
  "trim str = rev (dropWhile isspace (rev (dropWhile isspace str)))"

text \<open>\<open>handle_comment\<close>: cut the string at its first semicolon.\<close>

definition handle_comment :: "string \<Rightarrow> string" where
  "handle_comment str = takeWhile (\<lambda>c. c \<noteq> CHR '';'') str"

text \<open>
  \<open>handle_extra_spaces\<close>: the read/write loop, with the characters written so far
  and the \<open>in_word\<close> flag as loop state.
\<close>

definition drop_last_space :: "string \<Rightarrow> string" where
  "drop_last_space w = (if w \<noteq> [] \<and> last w = CHR '' '' then butlast w else w)"

fun extra_spaces_loop :: "bool \<Rightarrow> string \<Rightarrow> string \<Rightarrow> string" where
  "extra_spaces_loop in_word w [] = drop_last_space w"
| "extra_spaces_loop in_word w (c # cs) =
     (if isspace c then
        (if in_word then extra_spaces_loop False (w @ [CHR '' '']) cs
         else extra_spaces_loop in_word w cs)
      else if c = CHR '','' then extra_spaces_loop False (drop_last_space w @ [CHR '','']) cs
      else extra_spaces_loop True (w @ [c]) cs)"

definition handle_extra_spaces :: "string \<Rightarrow> string" where
  "handle_extra_spaces str = extra_spaces_loop False [] str"

text \<open>\<open>is_register\<close>: exactly \<open>r0\<close> .. \<open>r7\<close>.\<close>

definition is_register :: "string \<Rightarrow> bool" where
  "is_register str =
     (length str = 2 \<and> str ! 0 = CHR ''r'' \<and> CHR ''0'' \<le> str ! 1 \<and> str ! 1 \<le> CHR ''7'')"

definition get_register_number :: "string \<Rightarrow> int" where
  "get_register_number reg =
     (if length reg = 2 \<and> reg ! 0 = CHR ''r'' \<and> CHR ''0'' \<le> reg ! 1 \<and> reg ! 1 \<le> CHR ''7''
      then int (of_char (reg ! 1)) - int (of_char (CHR ''0''))
      else -1)"

text \<open>
  \<open>is_number\<close>: an optional \<open>#\<close>, an optional sign, then one or more decimal digits
  and nothing else.
\<close>

definition skip_char :: "(char \<Rightarrow> bool) \<Rightarrow> string \<Rightarrow> string" where
  "skip_char p str = (case str of [] \<Rightarrow> [] | c # cs \<Rightarrow> if p c then cs else str)"

definition is_number :: "string \<Rightarrow> bool" where
  "is_number str =
     (let s1 = skip_char (\<lambda>c. c = CHR ''#'') str;
          s2 = skip_char (\<lambda>c. c = CHR ''-'' \<or> c = CHR ''+'') s1
      in s2 \<noteq> [] \<and> list_all (\<lambda>c. \<not> (c < CHR ''0'' \<or> c > CHR ''9'')) s2)"

definition is_directive :: "string \<Rightarrow> bool" where
  "is_directive token =
     (token \<noteq> [] \<and> hd token = CHR ''.'' \<and>
      (token = ''.data'' \<or> token = ''.string'' \<or> token = ''.entry'' \<or> token = ''.extern''))"

definition MAX_LABEL_LENGTH :: nat where
  "MAX_LABEL_LENGTH = 31"

definition MAX_LINE_LENGTH :: nat where
  "MAX_LINE_LENGTH = 80"

definition is_label :: "string \<Rightarrow> bool" where
  "is_label token =
     (if token = [] then False
      else if length token > MAX_LABEL_LENGTH then False
      else if \<not> isalpha (hd token) then False
      else if is_register token \<or> get_opcode token \<noteq> -1 then False
      else list_all isalnum (tl token))"

definition validate_string :: "string \<Rightarrow> bool" where
  "validate_string str =
     (let len = length str in
      if len < 2 \<or> hd str \<noteq> CHR 0x22 \<or> last str \<noteq> CHR 0x22 then False
      else list_all (\<lambda>c. c \<noteq> CHR 0x22) (butlast (tl str)))"

section \<open>Addressing modes\<close>

text \<open>
  \<open>get_addressing_mode\<close>: 4 for no operand, 0 immediate, 3 register direct,
  2 register indirect, 1 direct (label).
\<close>

definition get_addressing_mode :: "string option \<Rightarrow> int" where
  "get_addressing_mode operand =
     (case operand of
        None \<Rightarrow> 4
      | Some s \<Rightarrow>
          if s = [] \<or> s = '' '' then 4
          else if hd s = CHR ''#'' \<and> is_number s then 0
          else if hd s = CHR ''r'' \<and> is_register s then 3
          else if hd s = CHR ''*'' \<and> 2 \<le> length s \<and> s ! 1 = CHR ''r'' \<and> is_register (tl s) then 2
          else 1)"


text \<open>The register names, as the specification lists them.\<close>

definition register_names :: "string list" where
  "register_names = [''r0'', ''r1'', ''r2'', ''r3'', ''r4'', ''r5'', ''r6'', ''r7'']"

section \<open>Instruction length\<close>

text \<open>
  \<open>sscanf(operands, "%[^,], %s", source, target)\<close>: the source is the non-empty run of
  characters before the first comma (nothing is stored when the run is empty); after the
  comma, white space is skipped and the target is the next run of non-blank characters.
  Both buffers start zeroed and hold \<open>MAX_LABEL_LENGTH\<close> characters and the NUL.
  \<open>scan_operands\<close> is what \<open>sscanf\<close> stores when both operands fit, which
  \<open>fits_operand_buffers\<close> states; a longer operand overruns its buffer.
\<close>

definition scan_operands :: "string \<Rightarrow> string \<times> string" where
  "scan_operands operands =
     (let source = takeWhile (\<lambda>c. c \<noteq> CHR '','') operands;
          rest = dropWhile (\<lambda>c. c \<noteq> CHR '','') operands
      in if source = [] then ([], [])
         else case rest of
                [] \<Rightarrow> (source, [])
              | comma # after \<Rightarrow>
                  (source, takeWhile (\<lambda>c. \<not> isspace c) (dropWhile isspace after)))"


definition get_instruction_length :: "string \<Rightarrow> string option \<Rightarrow> int" where
  "get_instruction_length operation operands =
     (case operands of
        None \<Rightarrow> 1
      | Some ops \<Rightarrow>
          (let source = trim (fst (scan_operands ops));
               target = trim (snd (scan_operands ops));
               source_mode = get_addressing_mode (Some source);
               target_mode = get_addressing_mode (Some target);
               length1 = 1 + (if source \<noteq> [] then 1 else 0);
               count1 = (if source \<noteq> [] then 1 else 0);
               length2 = length1 + (if target \<noteq> [] then 1 else 0);
               operand_count = count1 + (if target \<noteq> [] then 1 else 0)
           in if operand_count \<noteq> get_operand_count operation then -1
              else if (source_mode = 3 \<or> source_mode = 2) \<and> (target_mode = 3 \<or> target_mode = 2)
              then 2
              else length2))"

text \<open>The number of operands present in an operand string, as the length rule counts them.\<close>

definition present_operands :: "string option \<Rightarrow> int" where
  "present_operands operands =
     (case operands of
        None \<Rightarrow> 0
      | Some ops \<Rightarrow>
          (if trim (fst (scan_operands ops)) \<noteq> [] then 1 else 0) +
          (if trim (snd (scan_operands ops)) \<noteq> [] then 1 else 0))"

text \<open>Both operands of an operand string are register operands (mode 2 or 3).\<close>

definition both_registers :: "string option \<Rightarrow> bool" where
  "both_registers operands =
     (case operands of
        None \<Rightarrow> False
      | Some ops \<Rightarrow>
          get_addressing_mode (Some (trim (fst (scan_operands ops)))) \<in> {2, 3} \<and>
          get_addressing_mode (Some (trim (snd (scan_operands ops)))) \<in> {2, 3})"

section \<open>Error sink (error\_handling.c)\<close>

datatype ErrorCategory =
  ERR_MEMORY | ERR_FILE_INPUT | ERR_FILE_OUTPUT | ERR_SYNTAX | ERR_SEMANTIC
  | ERR_MACRO | ERR_OVERFLOW | ERR_SYMBOL

text \<open>
  A logged error: category, message and line number (the file name, which the passes
  only forward, is left out). The log keeps at most \<open>MAX_ERRORS\<close> entries; further
  errors are dropped.
\<close>

type_synonym ErrorInfo = "ErrorCategory \<times> string \<times> int"

definition MAX_ERRORS :: nat where
  "MAX_ERRORS = 100"

definition log_error :: "ErrorCategory \<Rightarrow> string \<Rightarrow> int \<Rightarrow> ErrorInfo list \<Rightarrow> ErrorInfo list" where
  "log_error category specific_message line_number error_log =
     (if length error_log < MAX_ERRORS
      then error_log @ [(category, specific_message, line_number)]
      else error_log)"

section \<open>Symbol table (symbol\_table.c)\<close>

datatype SymbolType =
  SYMBOL_TYPE_CODE | SYMBOL_TYPE_DATA | SYMBOL_TYPE_ENTRY | SYMBOL_TYPE_EXTERNAL

record Symbol =
  name :: string
  address :: int
  type :: SymbolType

record ExternalSymbol =
  ext_name :: string
  references :: "int list"

record SymbolTable =
  symbols :: "Symbol list"
  has_entries :: bool
  has_externs :: bool
  external_table :: "ExternalSymbol list"

definition MAX_EXTERNAL_REFERENCES :: nat where
  "MAX_EXTERNAL_REFERENCES = 100"

definition init_symbol_table :: SymbolTable where
  "init_symbol_table =
     \<lparr>symbols = [], has_entries = False, has_externs = False, external_table = []\<rparr>"

text \<open>
  \<open>add_symbol\<close>: refused (with a logged error) when the name is already in the table or
  is the name of a macro; otherwise the symbol is appended, its name cut to
  \<open>MAX_LABEL_LENGTH\<close> characters. The macro table is the list of macro names.
\<close>

definition add_symbol ::
  "string list \<Rightarrow> SymbolTable \<Rightarrow> string \<Rightarrow> int \<Rightarrow> SymbolType \<Rightarrow> int \<Rightarrow> ErrorInfo list
     \<Rightarrow> bool \<times> SymbolTable \<times> ErrorInfo list" where
  "add_symbol macro_names table nm addr ty line_number error_log =
     (if list_ex (\<lambda>s. name s = nm) (symbols table)
      then (False, table, log_error ERR_SYMBOL ''Duplicate symbol definition'' line_number error_log)
      else if list_ex (\<lambda>m. m = nm) macro_names
      then (False, table,
            log_error ERR_SYMBOL ''Symbol name conflicts with macro name'' line_number error_log)
      else (True,
            table\<lparr>symbols := symbols table @
                      [\<lparr>name = take MAX_LABEL_LENGTH nm, address = addr, type = ty\<rparr>],
                  has_entries := (if ty = SYMBOL_TYPE_ENTRY then True else has_entries table),
                  has_externs := (if ty \<noteq> SYMBOL_TYPE_ENTRY \<and> ty = SYMBOL_TYPE_EXTERNAL
                                  then True else has_externs table)\<rparr>,
            error_log))"

definition find_symbol :: "SymbolTable \<Rightarrow> string \<Rightarrow> Symbol option" where
  "find_symbol table nm = find (\<lambda>s. name s = nm) (symbols table)"

text \<open>
  \<open>add_external_reference\<close>: the first entry with the given name receives the address
  unless it already holds \<open>MAX_EXTERNAL_REFERENCES\<close>; without such an entry a new one
  is appended.
\<close>

fun add_external_reference :: "ExternalSymbol list \<Rightarrow> string \<Rightarrow> int \<Rightarrow> ExternalSymbol list" where
  "add_external_reference [] nm addr = [\<lparr>ext_name = nm, references = [addr]\<rparr>]"
| "add_external_reference (e # es) nm addr =
     (if ext_name e = nm then
        (if length (references e) < MAX_EXTERNAL_REFERENCES
         then e\<lparr>references := references e @ [addr]\<rparr> # es
         else e # es)
      else e # add_external_reference es nm addr)"


section \<open>Encoder\<close>

text \<open>The fields of \<open>Instruction\<close> are \<open>unsigned int\<close>: 32-bit words.\<close>

record Instruction =
  opcode :: "32 word"
  source_addressing :: "32 word"
  target_addressing :: "32 word"
  are :: "32 word"
  source_are :: "32 word"
  target_are :: "32 word"
  source_operand :: "32 word"
  target_operand :: "32 word"

text \<open>
  \<open>atoi\<close> of the C library, which is \<open>(int) strtol(str, NULL, 10)\<close>: leading white
  space, an optional sign, then the longest run of decimal digits. \<open>strtol\<close> replaces a
  value outside the range of \<open>long\<close> (64 bits) by the nearest bound of that range, and
  the conversion to \<open>int\<close> keeps the low 32 bits, read as two's complement.
\<close>

definition atoi :: "string \<Rightarrow> int" where
  "atoi str =
     (let s1 = dropWhile isspace str;
          negative = (s1 \<noteq> [] \<and> hd s1 = CHR ''-'');
          s2 = skip_char (\<lambda>c. c = CHR ''-'' \<or> c = CHR ''+'') s1;
          v = foldl (\<lambda>acc d. 10 * acc + (int (of_char d) - int (of_char (CHR ''0'')))) 0
                (takeWhile isdigit s2);
          as_long = max (- (2 ^ 63)) (min (2 ^ 63 - 1) (if negative then - v else v))
      in sint (word_of_int as_long :: 32 word))"

text \<open>
  \<open>encode_operand\<close> returns the operand value, the A.R.E. value left in \<open>*are\<close> (the
  caller's value when the function does not store one) and the symbol table, whose
  external-reference index grows when the operand names an external symbol.
\<close>

definition encode_operand ::
  "string \<Rightarrow> SymbolTable \<Rightarrow> 32 word \<Rightarrow> int \<Rightarrow> bool \<Rightarrow> int \<times> 32 word \<times> SymbolTable" where
  "encode_operand operand table are_in addr is_source =
     (let mode = get_addressing_mode (Some operand) in
      if mode = 0 then (atoi (tl operand) AND 0xFFF, 4, table)
      else if mode = 1 then
        (case find_symbol table operand of
           Some symbol \<Rightarrow>
             if type symbol = SYMBOL_TYPE_EXTERNAL
             then (1, 1,
                   table\<lparr>external_table :=
                           add_external_reference (external_table table) operand
                             (addr + (if is_source then 1 else 2))\<rparr>)
             else (address symbol, 2, table)
         | None \<Rightarrow> (-1, are_in, table))
      else if mode = 2 then (get_register_number (tl operand) AND 0x7, 4, table)
      else if mode = 3 then (get_register_number operand AND 0x7, 4, table)
      else (-1, are_in, table))"

text \<open>
  \<open>encode_instruction\<close>: a single operand is moved to the target slot; an operand that
  fails to encode (value \<open>-1\<close>) turns the opcode into \<open>-1\<close>.
\<close>

definition encode_instruction ::
  "string \<Rightarrow> string option \<Rightarrow> SymbolTable \<Rightarrow> int \<Rightarrow> Instruction \<times> SymbolTable" where
  "encode_instruction operation operands table addr =
     (let source0 = (case operands of None \<Rightarrow> [] | Some ops \<Rightarrow> trim (fst (scan_operands ops)));
          target0 = (case operands of None \<Rightarrow> [] | Some ops \<Rightarrow> trim (snd (scan_operands ops)));
          source = (if target0 = [] then [] else source0);
          target = (if target0 = [] then source0 else target0);
          sm = get_addressing_mode (Some source);
          tm = get_addressing_mode (Some target);
          src = (if sm \<noteq> 4 then encode_operand source table 4 addr True else (0, 4, table));
          tgt = (if tm \<noteq> 4 then encode_operand target (snd (snd src)) 4 addr False
                 else (0, 4, snd (snd src)));
          so = (word_of_int (fst src) :: 32 word);
          to = (word_of_int (fst tgt) :: 32 word)
      in (\<lparr>opcode = (if to = -1 \<or> so = -1 then -1 else word_of_int (get_opcode operation)),
           source_addressing = word_of_int sm,
           target_addressing = word_of_int tm,
           are = 4,
           source_are = fst (snd src),
           target_are = fst (snd tgt),
           source_operand = so,
           target_operand = to\<rparr>,
          snd (snd tgt)))"

text \<open>
  \<open>write_instruction\<close>: the lines written to the object stream, each an address and a
  word (printed as \<open>%04d %05o\<close>).
\<close>

definition first_word :: "Instruction \<Rightarrow> 32 word" where
  "first_word inst =
     (let w0 = push_bit 11 (opcode inst AND 0xF);
          w1 = (if source_addressing inst \<noteq> 4
                then w0 OR push_bit (7 + unat (source_addressing inst)) 1 else w0);
          w2 = (if target_addressing inst \<noteq> 4
                then w1 OR push_bit (3 + unat (target_addressing inst)) 1 else w1)
      in (w2 OR 4) AND 0x7FFF)"

definition source_word :: "Instruction \<Rightarrow> 32 word" where
  "source_word inst =
     (if source_are inst = 1 then source_are inst AND 0x7
      else if source_addressing inst = 1
      then push_bit 3 (source_operand inst AND 0xFFF) OR (source_are inst AND 0x7)
      else push_bit 6 (source_operand inst AND 0x7) OR 4)"

definition target_word :: "Instruction \<Rightarrow> 32 word" where
  "target_word inst =
     (if target_are inst = 1 then target_are inst AND 0x7
      else if target_addressing inst = 0
      then push_bit 3 (target_operand inst AND 0xFFF) OR 4
      else if target_addressing inst = 1
      then push_bit 3 (target_operand inst AND 0xFFF) OR (target_are inst AND 0x7)
      else push_bit 3 (target_operand inst AND 0x7) OR 4)"

definition write_instruction :: "Instruction \<Rightarrow> int \<Rightarrow> (int \<times> 32 word) list" where
  "write_instruction inst addr =
     (if (source_addressing inst = 2 \<or> source_addressing inst = 3) \<and>
         (target_addressing inst = 2 \<or> target_addressing inst = 3)
      then [(addr, first_word inst),
            (addr + 1,
             push_bit 6 (source_operand inst AND 0x7) OR push_bit 3 (target_operand inst AND 0x7)
               OR 4)]
      else
        (let source_lines = (if source_addressing inst \<noteq> 4 then [(addr + 1, source_word inst)]
                             else []);
             add_words = (if source_addressing inst \<noteq> 4 then 2 else 1);
             target_lines = (if target_addressing inst \<noteq> 4
                             then [(addr + add_words, target_word inst)] else [])
         in (addr, first_word inst) # source_lines @ target_lines))"


section \<open>Reading and tokenising lines\<close>

text \<open>
  \<open>fgets(line, MAX_LINE_LENGTH + 1, file)\<close> called until the end of the file: each call
  takes the characters up to and including the next newline, and at most
  \<open>MAX_LINE_LENGTH\<close> of them. \<open>read_lines\<close> is the list of the strings so read.
\<close>

fun fgets_loop :: "nat \<Rightarrow> string \<Rightarrow> string \<Rightarrow> string list" where
  "fgets_loop room cur [] = (if cur = [] then [] else [cur])"
| "fgets_loop room cur (c # cs) =
     (if c = CHR 0x0A \<or> room = 1 then (cur @ [c]) # fgets_loop MAX_LINE_LENGTH [] cs
      else fgets_loop (room - 1) (cur @ [c]) cs)"

definition read_lines :: "string \<Rightarrow> string list" where
  "read_lines file = fgets_loop MAX_LINE_LENGTH [] file"

text \<open>
  \<open>strtok\<close>: skip the leading delimiters; the token runs to the next delimiter, which is
  consumed. The result is the token (\<open>None\<close> for \<open>NULL\<close>) and the rest of the string, where
  the next call with a \<open>NULL\<close> first argument continues.
\<close>

definition strtok :: "string \<Rightarrow> string \<Rightarrow> string option \<times> string" where
  "strtok delims str =
     (let s1 = dropWhile (\<lambda>c. c \<in> set delims) str in
      if s1 = [] then (None, [])
      else (Some (takeWhile (\<lambda>c. c \<notin> set delims) s1),
            drop 1 (dropWhile (\<lambda>c. c \<notin> set delims) s1)))"

text \<open>All the tokens a \<open>strtok\<close> loop with fixed delimiters returns.\<close>

fun tokens :: "string \<Rightarrow> string \<Rightarrow> string \<Rightarrow> string list" where
  "tokens delims cur [] = (if cur = [] then [] else [cur])"
| "tokens delims cur (c # cs) =
     (if c \<in> set delims then (if cur = [] then tokens delims [] cs else cur # tokens delims [] cs)
      else tokens delims (cur @ [c]) cs)"

definition count_data_values :: "string \<Rightarrow> int" where
  "count_data_values operands = int (length (tokens '','' [] operands))"

definition normalize_line :: "string \<Rightarrow> string" where
  "normalize_line line = trim (handle_extra_spaces (handle_comment line))"

definition blank_tab_newline :: string where
  "blank_tab_newline = [CHR '' '', CHR 0x09, CHR 0x0A]"

definition blank_tab :: string where
  "blank_tab = [CHR '' '', CHR 0x09]"

definition comma_blank_tab :: string where
  "comma_blank_tab = [CHR '','', CHR '' '', CHR 0x09]"

definition newline :: string where
  "newline = [CHR 0x0A]"

section \<open>Output files (output\_generator.c)\<close>

definition FIRST_ADDRESS :: int where
  "FIRST_ADDRESS = 100"

fun decimal :: "nat \<Rightarrow> string" where
  "decimal n =
     (if n < 10 then [char_of (48 + n)] else decimal (n div 10) @ [char_of (48 + n mod 10)])"

declare decimal.simps [simp del]

text \<open>\<open>%04d\<close>: at least four characters, padded with zeros after the sign.\<close>

definition fmt_04d :: "int \<Rightarrow> string" where
  "fmt_04d n =
     (if n < 0
      then CHR ''-'' # replicate (3 - length (decimal (nat (- n)))) (CHR ''0'') @ decimal (nat (- n))
      else replicate (4 - length (decimal (nat n))) (CHR ''0'') @ decimal (nat n))"

text \<open>
  A text file is the list of its lines, each written with a newline after it. The object
  file is its header (\<open>IC - 100\<close> and \<open>DC\<close>) and the lines of the code stream; the entry
  and external files are \<open>None\<close> when they are not created.
\<close>

record Output =
  ob_header :: "int \<times> int"
  ob_lines :: "(int \<times> 32 word) list"
  ent_file :: "string list option"
  ext_file :: "string list option"

definition generate_ent_file :: "SymbolTable \<Rightarrow> string list" where
  "generate_ent_file symbol_table =
     map (\<lambda>s. name s @ '' '' @ fmt_04d (address s))
       (filter (\<lambda>s. type s = SYMBOL_TYPE_ENTRY) (symbols symbol_table))"

definition generate_ext_file :: "SymbolTable \<Rightarrow> string list" where
  "generate_ext_file symbol_table =
     concat (map (\<lambda>e. map (\<lambda>r. ext_name e @ '' '' @ fmt_04d r) (references e))
               (external_table symbol_table))"

definition generate_output :: "SymbolTable \<Rightarrow> int \<Rightarrow> int \<Rightarrow> (int \<times> 32 word) list \<Rightarrow> Output" where
  "generate_output symbol_table ic dc temp_lines =
     \<lparr>ob_header = (ic - FIRST_ADDRESS, dc),
      ob_lines = temp_lines,
      ent_file = (if has_entries symbol_table then Some (generate_ent_file symbol_table) else None),
      ext_file = (if has_externs symbol_table then Some (generate_ext_file symbol_table) else None)\<rparr>"


section \<open>Second pass (second\_pass.c)\<close>

text \<open>
  The loop state of \<open>second_pass\<close>: the symbol table, the address cursor, the error
  flag, the error log and the lines written to the code stream so far.
\<close>

record SecondPass =
  sp_table :: SymbolTable
  sp_address :: int
  sp_error_found :: bool
  sp_log :: "ErrorInfo list"
  sp_lines :: "(int \<times> 32 word) list"

definition sp_error :: "ErrorCategory \<Rightarrow> string \<Rightarrow> int \<Rightarrow> SecondPass \<Rightarrow> SecondPass" where
  "sp_error category msg line_number st =
     st\<lparr>sp_error_found := True, sp_log := log_error category msg line_number (sp_log st)\<rparr>"

definition emit_word :: "32 word \<Rightarrow> SecondPass \<Rightarrow> SecondPass" where
  "emit_word w st =
     st\<lparr>sp_lines := sp_lines st @ [(sp_address st, w)], sp_address := sp_address st + 1\<rparr>"

text \<open>
  \<open>write_data\<close>: one word per comma-separated value, \<open>(unsigned short)value & 0x7FFF\<close>.
  With a \<open>NULL\<close> operand string the \<open>strtok\<close> loop finds nothing to continue with.
\<close>

definition write_data :: "string option \<Rightarrow> SecondPass \<Rightarrow> SecondPass" where
  "write_data data st =
     (case data of
        None \<Rightarrow> st
      | Some d \<Rightarrow>
          foldl (\<lambda>s token. emit_word (ucast (word_of_int (atoi token) :: 16 word) AND 0x7FFF) s)
            st (tokens '','' [] d))"

text \<open>
  \<open>write_string\<close>: the characters after the opening quote up to the next quote, then a
  zero word. A \<open>NULL\<close> operand string is dereferenced: the result is \<open>None\<close>.
\<close>

definition write_string :: "string option \<Rightarrow> SecondPass \<Rightarrow> SecondPass option" where
  "write_string operands st =
     (case operands of
        None \<Rightarrow> None
      | Some ops \<Rightarrow>
          Some (emit_word 0
                  (foldl (\<lambda>s c. emit_word (word_of_nat (of_char c)) s) st
                     (takeWhile (\<lambda>c. c \<noteq> CHR 0x22) (tl ops)))))"

text \<open>The assignment \<open>symbol->type = SYMBOL_TYPE_ENTRY\<close> through the pointer \<open>find_symbol\<close> returned.\<close>

fun mark_entry :: "Symbol list \<Rightarrow> string \<Rightarrow> Symbol list" where
  "mark_entry [] nm = []"
| "mark_entry (s # ss) nm =
     (if name s = nm then s\<lparr>type := SYMBOL_TYPE_ENTRY\<rparr> # ss else s # mark_entry ss nm)"

text \<open>The \<open>.entry\<close> branch of the second pass; \<open>symbol_name\<close> is the token after \<open>.entry\<close>.\<close>

definition handle_entry :: "int \<Rightarrow> string option \<Rightarrow> SecondPass \<Rightarrow> SecondPass" where
  "handle_entry line_number symbol_name st =
     (case symbol_name of
        Some nm \<Rightarrow>
          (case find_symbol (sp_table st) nm of
             Some symbol \<Rightarrow>
               if type symbol \<noteq> SYMBOL_TYPE_EXTERNAL
               then st\<lparr>sp_table := (sp_table st)\<lparr>symbols := mark_entry (symbols (sp_table st)) nm,
                                                  has_entries := True\<rparr>\<rparr>
               else sp_error ERR_SYMBOL ''Symbol declared as both .extern and .entry'' line_number st
           | None \<Rightarrow> sp_error ERR_SYMBOL ''Entry symbol not found in symbol table'' line_number st)
      | None \<Rightarrow> sp_error ERR_SYNTAX ''Missing operand for .entry directive'' line_number st)"

definition handle_instruction :: "int \<Rightarrow> string \<Rightarrow> string option \<Rightarrow> SecondPass \<Rightarrow> SecondPass" where
  "handle_instruction line_number token operands st =
     (let enc = encode_instruction token operands (sp_table st) (sp_address st) in
      if opcode (fst enc) = -1
      then sp_error ERR_SYNTAX ''Failed to encode instruction'' line_number (st\<lparr>sp_table := snd enc\<rparr>)
      else st\<lparr>sp_table := snd enc,
              sp_lines := sp_lines st @ write_instruction (fst enc) (sp_address st),
              sp_address := sp_address st + get_instruction_length token operands\<rparr>)"

text \<open>
  One iteration of the loop of \<open>second_pass\<close>. The result is \<open>None\<close> where the C code
  passes a \<open>NULL\<close> token to \<open>strcmp\<close> (a line that is only a label) or a \<open>NULL\<close> operand
  string to \<open>write_string\<close>.
\<close>

definition second_pass_line :: "int \<Rightarrow> string \<Rightarrow> SecondPass \<Rightarrow> SecondPass option" where
  "second_pass_line line_number raw st =
     (let line = normalize_line raw in
      if line = [] then Some st
      else
        (let tok1 = strtok blank_tab line;
             tok2 = (case fst tok1 of
                       Some t \<Rightarrow> if last t = CHR '':'' then strtok blank_tab (snd tok1) else tok1
                     | None \<Rightarrow> tok1)
         in case fst tok2 of
              None \<Rightarrow> None
            | Some token \<Rightarrow>
                if token = ''.data'' \<or> token = ''.string'' then
                  (if token = ''.data'' then Some (write_data (fst (strtok newline (snd tok2))) st)
                   else write_string (fst (strtok newline (snd tok2))) st)
                else if token = ''.entry''
                then Some (handle_entry line_number (fst (strtok blank_tab_newline (snd tok2))) st)
                else if get_opcode token \<noteq> -1
                then Some (handle_instruction line_number token (fst (strtok newline (snd tok2))) st)
                else Some st))"

text \<open>
  The arguments with which the instruction branch of the second pass calls
  \<open>encode_instruction\<close> and \<open>get_instruction_length\<close> for a line: the mnemonic and the
  operand string (\<open>None\<close> when nothing follows the mnemonic), if the line reaches that
  branch.
\<close>

definition second_pass_instruction :: "string \<Rightarrow> (string \<times> string option) option" where
  "second_pass_instruction raw =
     (let line = normalize_line raw in
      if line = [] then None
      else
        (let tok1 = strtok blank_tab line;
             tok2 = (case fst tok1 of
                       Some t \<Rightarrow> if last t = CHR '':'' then strtok blank_tab (snd tok1) else tok1
                     | None \<Rightarrow> tok1)
         in case fst tok2 of
              None \<Rightarrow> None
            | Some token \<Rightarrow>
                if token = ''.data'' \<or> token = ''.string'' then None
                else if token = ''.entry'' then None
                else if get_opcode token \<noteq> -1
                then Some (token, fst (strtok newline (snd tok2)))
                else None))"

fun second_pass_loop :: "int \<Rightarrow> string list \<Rightarrow> SecondPass \<Rightarrow> SecondPass option" where
  "second_pass_loop line_number [] st = Some st"
| "second_pass_loop line_number (l # ls) st =
     (case second_pass_line (line_number + 1) l st of
        None \<Rightarrow> None
      | Some st' \<Rightarrow> second_pass_loop (line_number + 1) ls st')"

text \<open>
  \<open>second_pass\<close>: the final loop state and the output files, which are generated only
  when no error was found. \<open>temp.ob\<close>, the code stream itself, is not an output file.
\<close>

definition second_pass ::
  "string \<Rightarrow> SymbolTable \<Rightarrow> int \<Rightarrow> int \<Rightarrow> ErrorInfo list \<Rightarrow> (SecondPass \<times> Output option) option" where
  "second_pass file symbol_table ic dc error_log =
     (case second_pass_loop 0 (read_lines file)
             \<lparr>sp_table = symbol_table, sp_address = FIRST_ADDRESS, sp_error_found = False,
              sp_log = error_log, sp_lines = []\<rparr> of
        None \<Rightarrow> None
      | Some st \<Rightarrow>
          if sp_error_found st then Some (st, None)
          else Some (st, Some (generate_output (sp_table st) ic dc (sp_lines st))))"

section \<open>First pass\<close>

record FirstPass =
  fp_table :: SymbolTable
  fp_IC :: int
  fp_DC :: int
  fp_error_found :: bool
  fp_log :: "ErrorInfo list"

definition fp_error :: "ErrorCategory \<Rightarrow> string \<Rightarrow> int \<Rightarrow> FirstPass \<Rightarrow> FirstPass" where
  "fp_error category msg line_number st =
     st\<lparr>fp_error_found := True, fp_log := log_error category msg line_number (fp_log st)\<rparr>"

text \<open>The call \<open>if (!add_symbol(...)) error_found = true\<close> for the label of a line.\<close>

definition add_label ::
  "string list \<Rightarrow> string \<Rightarrow> int \<Rightarrow> SymbolType \<Rightarrow> int \<Rightarrow> FirstPass \<Rightarrow> FirstPass" where
  "add_label macro_names label addr ty line_number st =
     (let r = add_symbol macro_names (fp_table st) label addr ty line_number (fp_log st) in
      st\<lparr>fp_table := fst (snd r),
         fp_error_found := (if fst r then fp_error_found st else True),
         fp_log := snd (snd r)\<rparr>)"

text \<open>The \<open>strtok\<close> loop of the \<open>.extern\<close> branch, over its tokens.\<close>

fun add_externs :: "string list \<Rightarrow> int \<Rightarrow> string list \<Rightarrow> FirstPass \<Rightarrow> FirstPass" where
  "add_externs macro_names line_number [] st = st"
| "add_externs macro_names line_number (token # ts) st =
     (let r = add_symbol macro_names (fp_table st) token 0 SYMBOL_TYPE_EXTERNAL line_number
                (fp_log st);
          st1 = st\<lparr>fp_table := fst (snd r), fp_log := snd (snd r)\<rparr>
      in add_externs macro_names line_number ts
           (if fst r then st1
            else fp_error ERR_SYMBOL ''Duplicate external symbol definition'' line_number st1))"

definition first_pass_dispatch ::
  "string list \<Rightarrow> int \<Rightarrow> string \<Rightarrow> string \<Rightarrow> string \<Rightarrow> FirstPass \<Rightarrow> FirstPass" where
  "first_pass_dispatch macro_names line_number label operation operands st =
     (if is_directive operation then
        (if operation = ''.data'' then
           (let st1 = (if label \<noteq> []
                       then add_label macro_names label (fp_DC st) SYMBOL_TYPE_DATA line_number st
                       else st);
                data_count = count_data_values operands
            in if data_count = -1
               then fp_error ERR_SYNTAX ''Invalid .data directive'' line_number st1
               else st1\<lparr>fp_DC := fp_DC st1 + data_count\<rparr>)
         else if operation = ''.string'' then
           (let st1 = (if label \<noteq> []
                       then add_label macro_names label (fp_DC st) SYMBOL_TYPE_DATA line_number st
                       else st)
            in if \<not> validate_string operands
               then fp_error ERR_SYNTAX ''Invalid .string directive'' line_number st1
               else st1\<lparr>fp_DC := fp_DC st1 + (int (length operands) - 2 + 1)\<rparr>)
         else if operation = ''.entry'' then
           st\<lparr>fp_table := (fp_table st)\<lparr>has_entries := True\<rparr>\<rparr>
         else if operation = ''.extern'' then
           (if trim operands = []
            then fp_error ERR_SYNTAX ''Missing operand for .extern directive'' line_number st
            else
              (let st1 = add_externs macro_names line_number
                           (tokens comma_blank_tab [] (trim operands)) st
               in st1\<lparr>fp_table := (fp_table st1)\<lparr>has_externs := True\<rparr>\<rparr>))
         else st)
      else if get_opcode operation \<noteq> -1 then
        (let inst_length = get_instruction_length operation (Some operands) in
         if inst_length = -1
         then fp_error ERR_SYNTAX ''Invalid instruction format'' line_number st
         else
           (let st1 = (if label \<noteq> []
                       then add_label macro_names label (fp_IC st) SYMBOL_TYPE_CODE line_number st
                       else st)
            in st1\<lparr>fp_IC := fp_IC st1 + inst_length\<rparr>))
      else fp_error ERR_SYNTAX ''Unknown operation'' line_number st)"

text \<open>
  One iteration of the loop of \<open>first_pass\<close>. \<open>strncpy\<close> keeps the first
  \<open>MAX_LABEL_LENGTH\<close> characters of the label and of the operation.
\<close>

definition first_pass_line :: "string list \<Rightarrow> int \<Rightarrow> string \<Rightarrow> FirstPass \<Rightarrow> FirstPass" where
  "first_pass_line macro_names line_number raw st =
     (let line = normalize_line raw in
      if line = [] then st
      else if length line > MAX_LINE_LENGTH
      then fp_error ERR_SYNTAX ''Line exceeds maximum length'' line_number st
      else
        (let tok1 = strtok blank_tab_newline line;
             has_label = (case fst tok1 of Some t \<Rightarrow> last t = CHR '':'' | None \<Rightarrow> False);
             label = (case fst tok1 of
                        Some t \<Rightarrow> if last t = CHR '':'' then take MAX_LABEL_LENGTH (butlast t) else []
                      | None \<Rightarrow> [])
         in if has_label \<and> \<not> is_label label
            then fp_error ERR_SYNTAX ''Illegal label'' line_number st
            else
              (let tok2 = (if has_label then strtok blank_tab (snd tok1) else tok1);
                   operation = (case fst tok2 of Some t \<Rightarrow> take MAX_LABEL_LENGTH t | None \<Rightarrow> []);
                   operands = (case fst tok2 of
                                 Some t \<Rightarrow>
                                   (case fst (strtok newline (snd tok2)) of
                                      Some ops \<Rightarrow> trim (take MAX_LINE_LENGTH ops)
                                    | None \<Rightarrow> [])
                               | None \<Rightarrow> [])
               in first_pass_dispatch macro_names line_number label operation operands st)))"

fun first_pass_loop :: "string list \<Rightarrow> int \<Rightarrow> string list \<Rightarrow> FirstPass \<Rightarrow> FirstPass" where
  "first_pass_loop macro_names line_number [] st = st"
| "first_pass_loop macro_names line_number (l # ls) st =
     first_pass_loop macro_names (line_number + 1) ls
       (first_pass_line macro_names (line_number + 1) l st)"

text \<open>The loop after the file is read: every data symbol moves up by the final \<open>IC\<close>.\<close>

definition rebase_data :: "int \<Rightarrow> Symbol list \<Rightarrow> Symbol list" where
  "rebase_data ic syms =
     map (\<lambda>s. if type s = SYMBOL_TYPE_DATA then s\<lparr>address := address s + ic\<rparr> else s) syms"

definition first_pass_scan :: "string list \<Rightarrow> string \<Rightarrow> SymbolTable \<Rightarrow> ErrorInfo list \<Rightarrow> FirstPass" where
  "first_pass_scan macro_names file symbol_table error_log =
     first_pass_loop macro_names 0 (read_lines file)
       \<lparr>fp_table = symbol_table, fp_IC = FIRST_ADDRESS, fp_DC = 0, fp_error_found = False,
        fp_log = error_log\<rparr>"

text \<open>
  \<open>first_pass\<close>: the state after the loop and the rebasing, and the result of the second
  pass, which runs only when no error was found (\<open>None\<close> when it does not run).
\<close>

definition first_pass ::
  "string list \<Rightarrow> string \<Rightarrow> SymbolTable \<Rightarrow> ErrorInfo list
     \<Rightarrow> FirstPass \<times> (SecondPass \<times> Output option) option option" where
  "first_pass macro_names file symbol_table error_log =
     (let st = first_pass_scan macro_names file symbol_table error_log;
          st1 = st\<lparr>fp_table := (fp_table st)\<lparr>symbols := rebase_data (fp_IC st)
                                                           (symbols (fp_table st))\<rparr>\<rparr>
      in if \<not> fp_error_found st1
         then (st1, Some (second_pass file (fp_table st1) (fp_IC st1) (fp_DC st1) (fp_log st1)))
         else (st1, None))"


section \<open>Macro pre-processor (pre\_assembler.c)\<close>

record Macro =
  macro_name :: string
  macro_lines :: "string list"

text \<open>
  The loop state of \<open>pre_assembler\<close>: the macro table, the lines written to the expanded
  file, the line counter, the error flag, the error log and the content of the buffer
  \<open>macro_name\<close>, which \<open>sscanf\<close> leaves as it was when no name follows \<open>macr\<close>.
\<close>

record PreAssembler =
  pa_macros :: "Macro list"
  pa_output :: "string list"
  pa_line_number :: int
  pa_error :: bool
  pa_log :: "ErrorInfo list"
  pa_name_buffer :: string

definition is_reserved_word :: "string \<Rightarrow> bool" where
  "is_reserved_word w =
     (if get_opcode w \<noteq> -1 then True
      else if is_register w then True
      else w \<in> set [''macr'', ''endmacr'', ''data'', ''string'', ''entry'', ''extern''])"

definition is_valid_macro_name :: "string \<Rightarrow> bool" where
  "is_valid_macro_name nm =
     (if nm = [] \<or> \<not> isalpha (hd nm) then False
      else if \<not> list_all isalnum (tl nm) then False
      else \<not> is_reserved_word nm)"

text \<open>\<open>sscanf(str, "%s", buffer)\<close>: the first run of non-blank characters, if there is one.\<close>

definition scan_word :: "string \<Rightarrow> string option" where
  "scan_word str =
     (let s1 = dropWhile isspace str in
      if s1 = [] then None else Some (takeWhile (\<lambda>c. \<not> isspace c) s1))"

definition is_endmacr :: "string \<Rightarrow> bool" where
  "is_endmacr line = (trim line = ''endmacr'')"

text \<open>
  The loop of \<open>pre_assembler\<close> over the lines read. \<open>add_macro\<close> takes the following
  lines up to the first \<open>endmacr\<close> line as the body and moves the file position back to
  that line, where the loop goes on.
\<close>

function pre_assembler_loop :: "string list \<Rightarrow> PreAssembler \<Rightarrow> PreAssembler" where
  "pre_assembler_loop [] st = st"
| "pre_assembler_loop (line # ls) st =
     (let ln = pa_line_number st + 1;
          trimmed_line = trim line
      in if length trimmed_line > MAX_LINE_LENGTH
         then pre_assembler_loop ls
                (st\<lparr>pa_line_number := ln, pa_error := True,
                    pa_log := log_error ERR_SYNTAX ''Line exceeds maximum length'' ln (pa_log st)\<rparr>)
         else if take 4 trimmed_line = ''macr'' then
           (let nm = (case scan_word (drop 4 trimmed_line) of
                        Some w \<Rightarrow> w
                      | None \<Rightarrow> pa_name_buffer st)
            in if is_valid_macro_name nm
               then pre_assembler_loop (dropWhile (\<lambda>l. \<not> is_endmacr l) ls)
                      (st\<lparr>pa_macros := pa_macros st @
                                         [\<lparr>macro_name = nm,
                                           macro_lines = takeWhile (\<lambda>l. \<not> is_endmacr l) ls\<rparr>],
                          pa_line_number :=
                            ln + int (length (takeWhile (\<lambda>l. \<not> is_endmacr l) ls)),
                          pa_name_buffer := nm\<rparr>)
               else pre_assembler_loop ls
                      (st\<lparr>pa_line_number := ln, pa_error := True,
                          pa_log := log_error ERR_MACRO ''Invalid macro name'' ln (pa_log st),
                          pa_name_buffer := nm\<rparr>))
         else if trimmed_line = ''endmacr''
         then pre_assembler_loop ls (st\<lparr>pa_line_number := ln\<rparr>)
         else
           (case find (\<lambda>m. trimmed_line = macro_name m) (pa_macros st) of
              Some m \<Rightarrow>
                pre_assembler_loop ls
                  (st\<lparr>pa_line_number := ln, pa_output := pa_output st @ macro_lines m\<rparr>)
            | None \<Rightarrow>
                pre_assembler_loop ls
                  (st\<lparr>pa_line_number := ln, pa_output := pa_output st @ [line]\<rparr>)))"
  by pat_completeness auto

termination
  by (relation "measure (\<lambda>(ls, st). length ls)")
     (auto simp: less_Suc_eq_le length_dropWhile_le)

text \<open>
  \<open>pre_assembler\<close> on the content of the \<open>.as\<close> file: the final state, whose
  \<open>pa_output\<close>, concatenated, is the content of the \<open>.am\<close> file. The function returns
  \<open>NULL\<close> when \<open>pa_error\<close> is set. \<open>name_buffer\<close> is the content of the uninitialised
  buffer \<open>macro_name\<close>.
\<close>

definition pre_assembler :: "string \<Rightarrow> string \<Rightarrow> ErrorInfo list \<Rightarrow> PreAssembler" where
  "pre_assembler name_buffer file error_log =
     pre_assembler_loop (read_lines file)
       \<lparr>pa_macros = [], pa_output = [], pa_line_number = 0, pa_error = False,
        pa_log = error_log, pa_name_buffer = name_buffer\<rparr>"

definition expanded_file :: "PreAssembler \<Rightarrow> string" where
  "expanded_file st = concat (pa_output st)"

text \<open>
  A macro definition line, in the words of the specification: the trimmed line begins
  with the token \<open>macr\<close>, that is, \<open>macr\<close> alone or followed by white space.
\<close>

definition macr_definition_line :: "string \<Rightarrow> bool" where
  "macr_definition_line line =
     (take 4 (trim line) = ''macr'' \<and>
      (length (trim line) = 4 \<or> isspace (trim line ! 4)))"

text \<open>
  A line that begins with a longer word whose first four letters are \<open>macr\<close>, such as
  the label \<open>macros:\<close>: not a macro definition, but taken for one by the prefix test
  \<open>strncmp(trimmed_line, "macr", 4)\<close> of the code.
\<close>

definition macr_prefixed_word :: "string \<Rightarrow> bool" where
  "macr_prefixed_word line =
     (take 4 (trim line) = ''macr'' \<and> 4 < length (trim line) \<and> \<not> isspace (trim line ! 4))"

section \<open>Driver (main.c), for one input file\<close>

text \<open>
  The body of the loop of \<open>main\<close> for one source file that exists: the error log at the
  end, and the result of the first pass when the pre-processor succeeded.
\<close>

definition assemble ::
  "string \<Rightarrow> string \<Rightarrow> ErrorInfo list
     \<Rightarrow> ErrorInfo list \<times> (FirstPass \<times> (SecondPass \<times> Output option) option option) option" where
  "assemble name_buffer source error_log =
     (let pre = pre_assembler name_buffer source error_log in
      if pa_error pre
      then (log_error ERR_FILE_INPUT ''Pre-assembler failed'' (-1) (pa_log pre), None)
      else
        (let r = first_pass (map macro_name (pa_macros pre)) (expanded_file pre)
                   init_symbol_table (pa_log pre);
             log1 = (case snd r of
                       Some (Some sp) \<Rightarrow> sp_log (fst sp)
                     | _ \<Rightarrow> fp_log (fst r))
         in if fp_error_found (fst r)
            then (log_error ERR_SEMANTIC ''First pass failed'' (-1) log1, Some r)
            else (log1, Some r)))"

text \<open>The output files an assembly produced, if any.\<close>

definition output_files ::
  "ErrorInfo list \<times> (FirstPass \<times> (SecondPass \<times> Output option) option option) option
     \<Rightarrow> Output option" where
  "output_files r =
     (case snd r of
        Some (fp, Some (Some (sp, Some out))) \<Rightarrow> Some out
      | _ \<Rightarrow> None)"

section \<open>Invariants of the passes\<close>

text \<open>The invariant of the first-pass loop on the addresses of the symbols.\<close>

definition symbol_in_range :: "int \<Rightarrow> int \<Rightarrow> Symbol \<Rightarrow> bool" where
  "symbol_in_range ic dc s =
     ((type s \<noteq> SYMBOL_TYPE_DATA \<or> (0 \<le> address s \<and> address s \<le> dc)) \<and>
      (type s \<noteq> SYMBOL_TYPE_CODE \<or> (100 \<le> address s \<and> address s < ic)))"

definition addresses_in_range :: "FirstPass \<Rightarrow> bool" where
  "addresses_in_range st =
     (100 \<le> fp_IC st \<and> 0 \<le> fp_DC st \<and>
      list_all (symbol_in_range (fp_IC st) (fp_DC st)) (symbols (fp_table st)))"

text \<open>
  Between two states of a pass: either the later state has the error flag set, or the
  earlier one has it clear and the log is the same.
\<close>

definition fp_clean :: "FirstPass \<Rightarrow> FirstPass \<Rightarrow> bool" where
  "fp_clean st st' = (fp_error_found st' \<or> (\<not> fp_error_found st \<and> fp_log st' = fp_log st))"

definition sp_clean :: "SecondPass \<Rightarrow> SecondPass \<Rightarrow> bool" where
  "sp_clean st st' = (sp_error_found st' \<or> (\<not> sp_error_found st \<and> sp_log st' = sp_log st))"

section \<open>The addressing-mode classifier\<close>


lemma is_number_unfold:
  "is_number str =
     (let s1 = skip_char (\<lambda>c. c = CHR ''#'') str;
          s2 = skip_char (\<lambda>c. c = CHR ''-'' \<or> c = CHR ''+'') s1
      in s2 \<noteq> [] \<and> list_all isdigit s2)"
proof -
  have "(\<lambda>c. \<not> (c < CHR ''0'' \<or> c > CHR ''9'')) = isdigit"
    by (auto simp: isdigit_def fun_eq_iff)
  then show ?thesis unfolding is_number_def by simp
qed

lemma not_digit_signs: "\<not> isdigit (CHR ''-'')" "\<not> isdigit (CHR ''+'')" "\<not> isdigit (CHR ''#'')"
  by (simp_all add: isdigit_def)

lemma is_number_hash:
  "is_number (CHR ''#'' # r) =
     (\<exists>sg ds. r = sg @ ds \<and> (sg = [] \<or> sg = ''-'' \<or> sg = ''+'') \<and> ds \<noteq> [] \<and> list_all isdigit ds)"
proof (cases r)
  case Nil
  then show ?thesis by (simp add: is_number_def skip_char_def)
next
  case (Cons c cs)
  show ?thesis
  proof (cases "c = CHR ''-'' \<or> c = CHR ''+''")
    case True
    have "is_number (CHR ''#'' # r) = (cs \<noteq> [] \<and> list_all isdigit cs)"
      using True Cons by (auto simp: is_number_unfold skip_char_def)
    moreover have "(\<exists>sg ds. r = sg @ ds \<and> (sg = [] \<or> sg = ''-'' \<or> sg = ''+'') \<and> ds \<noteq> [] \<and> list_all isdigit ds)
       = (cs \<noteq> [] \<and> list_all isdigit cs)"
    proof (intro iffI)
      assume "cs \<noteq> [] \<and> list_all isdigit cs"
      then have "r = [c] @ cs \<and> ([c] = [] \<or> [c] = ''-'' \<or> [c] = ''+'') \<and> cs \<noteq> [] \<and> list_all isdigit cs"
        using True Cons by auto
      then show "\<exists>sg ds. r = sg @ ds \<and> (sg = [] \<or> sg = ''-'' \<or> sg = ''+'') \<and> ds \<noteq> [] \<and> list_all isdigit ds"
        by blast
    next
      assume "\<exists>sg ds. r = sg @ ds \<and> (sg = [] \<or> sg = ''-'' \<or> sg = ''+'') \<and> ds \<noteq> [] \<and> list_all isdigit ds"
      then show "cs \<noteq> [] \<and> list_all isdigit cs"
        using True Cons not_digit_signs by (auto simp: Cons_eq_append_conv)
    qed
    ultimately show ?thesis by simp
  next
    case False
    have "is_number (CHR ''#'' # r) = (list_all isdigit r)"
      using False Cons by (auto simp: is_number_unfold skip_char_def)
    moreover have "(\<exists>sg ds. r = sg @ ds \<and> (sg = [] \<or> sg = ''-'' \<or> sg = ''+'') \<and> ds \<noteq> [] \<and> list_all isdigit ds)
       = (list_all isdigit r)"
    proof (intro iffI)
      assume "list_all isdigit r"
      then have "r = [] @ r \<and> (([]::string) = [] \<or> [] = ''-'' \<or> [] = ''+'') \<and> r \<noteq> [] \<and> list_all isdigit r"
        using Cons by simp
      then show "\<exists>sg ds. r = sg @ ds \<and> (sg = [] \<or> sg = ''-'' \<or> sg = ''+'') \<and> ds \<noteq> [] \<and> list_all isdigit ds"
        by blast
    next
      assume "\<exists>sg ds. r = sg @ ds \<and> (sg = [] \<or> sg = ''-'' \<or> sg = ''+'') \<and> ds \<noteq> [] \<and> list_all isdigit ds"
      then show "list_all isdigit r"
        using False Cons by (auto simp: Cons_eq_append_conv)
    qed
    ultimately show ?thesis by simp
  qed
qed

lemma octal_digit_cases:
  assumes "CHR ''0'' \<le> c" "c \<le> CHR ''7''"
  shows "c \<in> set ''01234567''"
proof -
  have "(of_char c :: nat) \<in> {48..55}"
    using assms by (simp add: less_eq_char_def)
  then have "(of_char c :: nat) \<in> {48, 49, 50, 51, 52, 53, 54, 55}" by auto
  then have "(of_char c :: nat) \<in> of_char ` set ''01234567''"
    by simp
  then show ?thesis
    unfolding inj_image_mem_iff [OF inj_of_char] .
qed

lemma is_register_iff: "is_register s = (s \<in> set register_names)"
proof
  assume "is_register s"
  then obtain a b where s: "s = [a, b]" and a: "a = CHR ''r''" and b: "CHR ''0'' \<le> b" "b \<le> CHR ''7''"
    by (cases s; cases "tl s") (auto simp: is_register_def)
  from octal_digit_cases [OF b] show "s \<in> set register_names"
    by (auto simp: s a register_names_def)
next
  assume "s \<in> set register_names"
  then show "is_register s"
    by (auto simp: register_names_def is_register_def)
qed


lemma mode_absent:
  "(get_addressing_mode operand = 4) = (operand = None \<or> operand = Some [] \<or> operand = Some '' '')"
  by (auto simp: get_addressing_mode_def split: option.splits)

lemma mode_range: "get_addressing_mode operand \<in> {0, 1, 2, 3, 4}"
  by (auto simp: get_addressing_mode_def split: option.splits)

lemma immediate_test:
  "(s \<noteq> [] \<and> hd s = CHR ''#'' \<and> is_number s) =
     (\<exists>sg ds. s = CHR ''#'' # sg @ ds \<and> (sg = [] \<or> sg = ''-'' \<or> sg = ''+'') \<and> ds \<noteq> [] \<and> list_all isdigit ds)"
proof (cases s)
  case Nil
  then show ?thesis by simp
next
  case (Cons c r)
  show ?thesis
  proof (cases "c = CHR ''#''")
    case True
    then show ?thesis using Cons is_number_hash [of r] by simp
  next
    case False
    then show ?thesis using Cons by auto
  qed
qed

lemma register_test: "(hd s = CHR ''r'' \<and> is_register s) = (s \<in> set register_names)"
  unfolding is_register_iff by (auto simp: register_names_def)

lemma indirect_test:
  "(s \<noteq> [] \<and> hd s = CHR ''*'' \<and> 2 \<le> length s \<and> s ! 1 = CHR ''r'' \<and> is_register (tl s)) =
     (\<exists>r \<in> set register_names. s = CHR ''*'' # r)"
proof (cases s)
  case Nil
  then show ?thesis by simp
next
  case (Cons c r)
  have "(2 \<le> length s \<and> s ! 1 = CHR ''r'' \<and> is_register r) = (r \<in> set register_names)"
    unfolding is_register_iff using Cons by (auto simp: register_names_def)
  then show ?thesis using Cons by auto
qed

text \<open>
  Claim C10. The addressing-mode classifier is total with range 0..4: it returns 4 exactly
  for an absent operand (\<open>NULL\<close>, the empty string or a single space); for every other
  operand it returns 0 for \<open>#\<close> followed by an optionally signed run of decimal digits,
  3 for a register name, 2 for \<open>*\<close> followed by a register name, and 1 for everything
  else, so that malformed operands such as \<open>#abc\<close> or \<open>*r9\<close> are classified as direct.
\<close>

theorem get_addressing_mode_classifies:
  "get_addressing_mode operand \<in> {0, 1, 2, 3, 4} \<and>
   ((get_addressing_mode operand = 4) =
      (operand = None \<or> operand = Some [] \<or> operand = Some '' '')) \<and>
   (\<forall>s. operand = Some s \<and> s \<noteq> [] \<and> s \<noteq> '' '' \<longrightarrow>
      get_addressing_mode operand =
        (if \<exists>sg ds. s = CHR ''#'' # sg @ ds \<and> (sg = [] \<or> sg = ''-'' \<or> sg = ''+'') \<and>
                     ds \<noteq> [] \<and> list_all isdigit ds then 0
         else if s \<in> set register_names then 3
         else if \<exists>r \<in> set register_names. s = CHR ''*'' # r then 2
         else 1))"
proof (intro conjI allI impI)
  show "get_addressing_mode operand \<in> {0, 1, 2, 3, 4}" by (rule mode_range)
  show "(get_addressing_mode operand = 4) =
      (operand = None \<or> operand = Some [] \<or> operand = Some '' '')" by (rule mode_absent)
next
  fix s
  assume a: "operand = Some s \<and> s \<noteq> [] \<and> s \<noteq> '' ''"
  have "get_addressing_mode (Some s) =
      (if s \<noteq> [] \<and> hd s = CHR ''#'' \<and> is_number s then 0
       else if hd s = CHR ''r'' \<and> is_register s then 3
       else if s \<noteq> [] \<and> hd s = CHR ''*'' \<and> 2 \<le> length s \<and> s ! 1 = CHR ''r'' \<and> is_register (tl s) then 2
       else 1)"
    using a by (simp add: get_addressing_mode_def)
  then show "get_addressing_mode operand =
        (if \<exists>sg ds. s = CHR ''#'' # sg @ ds \<and> (sg = [] \<or> sg = ''-'' \<or> sg = ''+'') \<and>
                     ds \<noteq> [] \<and> list_all isdigit ds then 0
         else if s \<in> set register_names then 3
         else if \<exists>r \<in> set register_names. s = CHR ''*'' # r then 2
         else 1)"
    unfolding immediate_test register_test indirect_test using a by simp
qed

theorem get_addressing_mode_classifies_witness:
  "get_addressing_mode (Some ''#abc'') = 1 \<and> get_addressing_mode (Some ''*r9'') = 1 \<and>
   get_addressing_mode (Some ''#-12'') = 0 \<and> get_addressing_mode (Some ''r7'') = 3 \<and>
   get_addressing_mode (Some ''*r0'') = 2 \<and> get_addressing_mode (Some '' '') = 4"
proof -
  have n1: "\<not> (\<exists>sg ds. ''#abc'' = CHR ''#'' # sg @ ds \<and> (sg = [] \<or> sg = ''-'' \<or> sg = ''+'') \<and>
                     ds \<noteq> [] \<and> list_all isdigit ds)"
    by (auto simp: isdigit_def)
  have n2: "\<not> (\<exists>sg ds. ''*r9'' = CHR ''#'' # sg @ ds \<and> (sg = [] \<or> sg = ''-'' \<or> sg = ''+'') \<and>
                     ds \<noteq> [] \<and> list_all isdigit ds)"
    by simp
  have p3: "\<exists>sg ds. ''#-12'' = CHR ''#'' # sg @ ds \<and> (sg = [] \<or> sg = ''-'' \<or> sg = ''+'') \<and>
                     ds \<noteq> [] \<and> list_all isdigit ds"
    by (rule exI [of _ "''-''"], rule exI [of _ "''12''"]) (simp add: isdigit_def)
  have n4: "\<not> (\<exists>sg ds. ''r7'' = CHR ''#'' # sg @ ds \<and> (sg = [] \<or> sg = ''-'' \<or> sg = ''+'') \<and>
                     ds \<noteq> [] \<and> list_all isdigit ds)"
    by simp
  have n5: "\<not> (\<exists>sg ds. ''*r0'' = CHR ''#'' # sg @ ds \<and> (sg = [] \<or> sg = ''-'' \<or> sg = ''+'') \<and>
                     ds \<noteq> [] \<and> list_all isdigit ds)"
    by simp
  show ?thesis
    using get_addressing_mode_classifies [of "Some ''#abc''"]
      get_addressing_mode_classifies [of "Some ''*r9''"]
      get_addressing_mode_classifies [of "Some ''#-12''"]
      get_addressing_mode_classifies [of "Some ''r7''"]
      get_addressing_mode_classifies [of "Some ''*r0''"]
      get_addressing_mode_classifies [of "Some '' ''"]
    unfolding register_names_def
    using n1 n2 p3 n4 n5 by simp
qed

section \<open>The first word of an instruction\<close>


lemma mode_cases:
  obtains "get_addressing_mode operand = 0" | "get_addressing_mode operand = 1"
  | "get_addressing_mode operand = 2" | "get_addressing_mode operand = 3"
  | "get_addressing_mode operand = 4"
  using mode_range [of operand] by auto

lemma mode_word_cases:
  "(word_of_int (get_addressing_mode operand) :: 32 word) \<in> {0, 1, 2, 3, 4}"
  by (rule mode_cases [of operand]) simp_all

lemma mode_word_eq [simp]:
  "((word_of_int (get_addressing_mode operand) :: 32 word) = 4) = (get_addressing_mode operand = 4)"
  "((word_of_int (get_addressing_mode operand) :: 32 word) = 3) = (get_addressing_mode operand = 3)"
  "((word_of_int (get_addressing_mode operand) :: 32 word) = 2) = (get_addressing_mode operand = 2)"
  by (rule mode_cases [of operand]; simp)+

lemma encode_instruction_modes:
  "source_addressing (fst (encode_instruction operation operands table addr)) \<in> {0, 1, 2, 3, 4}"
  "target_addressing (fst (encode_instruction operation operands table addr)) \<in> {0, 1, 2, 3, 4}"
  unfolding encode_instruction_def Let_def using mode_word_cases by simp_all

lemma bit_four: "bit (4 :: int) n = (n = 2)"
proof -
  have "bit (push_bit 2 1 :: int) n = (n = 2)"
    by (simp only: bit_push_bit_iff bit_1_iff possible_bit_int) auto
  then show ?thesis by simp
qed

lemma field_opcode:
  assumes "s < 4" "t < 4"
  shows "drop_bit 11 (((push_bit 11 (oc AND mask 4) OR (if sp then push_bit (7 + s) 1 else 0)
            OR (if tp then push_bit (3 + t) 1 else 0)) OR push_bit 2 1) AND mask 15)
          = (oc AND mask 4 :: 32 word)"
  apply (rule bit_word_eqI)
  using assms
  apply (simp only: bit_and_iff bit_or_iff bit_drop_bit_eq bit_push_bit_iff bit_mask_iff
      bit_1_iff possible_bit_word split: if_splits)
  apply (auto simp: bit_simps bit_four)
  done

lemma field_source:
  assumes "s < 4" "t < 4"
  shows "drop_bit 7 (((push_bit 11 (oc AND mask 4) OR (if sp then push_bit (7 + s) 1 else 0)
            OR (if tp then push_bit (3 + t) 1 else 0)) OR push_bit 2 1) AND mask 15) AND mask 4
           = (if sp then push_bit s 1 else 0 :: 32 word)"
  apply (rule bit_word_eqI)
  using assms
  apply (simp only: bit_and_iff bit_or_iff bit_drop_bit_eq bit_push_bit_iff bit_mask_iff
      bit_1_iff possible_bit_word split: if_splits)
  apply (auto simp: bit_simps bit_four)
  done

lemma field_target:
  assumes "s < 4" "t < 4"
  shows "drop_bit 3 (((push_bit 11 (oc AND mask 4) OR (if sp then push_bit (7 + s) 1 else 0)
            OR (if tp then push_bit (3 + t) 1 else 0)) OR push_bit 2 1) AND mask 15) AND mask 4
           = (if tp then push_bit t 1 else 0 :: 32 word)"
  apply (rule bit_word_eqI)
  using assms
  apply (simp only: bit_and_iff bit_or_iff bit_drop_bit_eq bit_push_bit_iff bit_mask_iff
      bit_1_iff possible_bit_word split: if_splits)
  apply (auto simp: bit_simps bit_four)
  done

lemma field_are:
  assumes "s < 4" "t < 4"
  shows "(((push_bit 11 (oc AND mask 4) OR (if sp then push_bit (7 + s) 1 else 0)
            OR (if tp then push_bit (3 + t) 1 else 0)) OR push_bit 2 1) AND mask 15) AND mask 3
           = (push_bit 2 1 :: 32 word)"
  apply (rule bit_word_eqI)
  using assms
  apply (simp only: bit_and_iff bit_or_iff bit_drop_bit_eq bit_push_bit_iff bit_mask_iff
      bit_1_iff possible_bit_word split: if_splits)
  apply (auto simp: bit_simps bit_four)
  done

lemma first_word_fields:
  assumes "source_addressing inst \<in> {0, 1, 2, 3, 4}" "target_addressing inst \<in> {0, 1, 2, 3, 4}"
  shows "drop_bit 11 (first_word inst) = opcode inst AND 0xF"
    and "drop_bit 7 (first_word inst) AND 0xF =
          (if source_addressing inst \<noteq> 4 then push_bit (unat (source_addressing inst)) 1 else 0)"
    and "drop_bit 3 (first_word inst) AND 0xF =
          (if target_addressing inst \<noteq> 4 then push_bit (unat (target_addressing inst)) 1 else 0)"
    and "first_word inst AND 0x7 = 4"
proof -
  define s where "s = (if source_addressing inst \<noteq> 4 then unat (source_addressing inst) else 0)"
  define t where "t = (if target_addressing inst \<noteq> 4 then unat (target_addressing inst) else 0)"
  have c: "(0xF :: 32 word) = mask 4" "(0x7FFF :: 32 word) = mask 15"
    "(0x7 :: 32 word) = mask 3" "(4 :: 32 word) = push_bit 2 1"
    by (simp_all add: mask_eq_exp_minus_1)
  have st: "s < 4" "t < 4"
    using assms by (auto simp: s_def t_def)
  have w: "first_word inst =
       ((push_bit 11 (opcode inst AND mask 4)
         OR (if source_addressing inst \<noteq> 4 then push_bit (7 + s) 1 else 0)
         OR (if target_addressing inst \<noteq> 4 then push_bit (3 + t) 1 else 0)) OR push_bit 2 1)
       AND mask 15"
    unfolding first_word_def Let_def s_def t_def c [symmetric] by (simp add: or.assoc)
  show "drop_bit 11 (first_word inst) = opcode inst AND 0xF"
    unfolding w c by (rule field_opcode [OF st])
  show "drop_bit 7 (first_word inst) AND 0xF =
          (if source_addressing inst \<noteq> 4 then push_bit (unat (source_addressing inst)) 1 else 0)"
    unfolding w c field_source [OF st] by (simp add: s_def)
  show "drop_bit 3 (first_word inst) AND 0xF =
          (if target_addressing inst \<noteq> 4 then push_bit (unat (target_addressing inst)) 1 else 0)"
    unfolding w c field_target [OF st] by (simp add: t_def)
  show "first_word inst AND 0x7 = 4"
    unfolding w c by (rule field_are [OF st])
qed

lemma get_opcode_range:
  "get_opcode m \<in> {-1, 0, 1, 2, 3, 4, 5, 6, 7, 8, 9, 10, 11, 12, 13, 14, 15}"
  by (simp add: get_opcode_def opcode_table_def)

lemma hd_write_instruction: "hd (write_instruction inst addr) = (addr, first_word inst)"
  by (simp add: write_instruction_def Let_def)


lemma encode_instruction_opcode:
  "opcode (fst (encode_instruction operation operands table addr)) = -1 \<or>
   opcode (fst (encode_instruction operation operands table addr)) = word_of_int (get_opcode operation)"
  by (simp add: encode_instruction_def Let_def)

text \<open>
  Claim C2. For every encoded instruction, the first word written has the opcode in
  bits 14-11, exactly the bit \<open>7 + source mode\<close> set among bits 10-7 when a source
  operand is present (none of them otherwise), exactly the bit \<open>3 + target mode\<close> set
  among bits 6-3 when a target operand is present (none of them otherwise), and the
  A.R.E. bits 2-0 equal to 4 (absolute); no bit above bit 14 is set.
\<close>

theorem first_word_layout:
  "(let inst = fst (encode_instruction operation operands table addr);
        w = snd (hd (write_instruction inst addr))
    in fst (hd (write_instruction inst addr)) = addr \<and>
       w = first_word inst \<and>
       drop_bit 15 w = 0 \<and>
       drop_bit 11 w = opcode inst AND 0xF \<and>
       (opcode inst \<noteq> -1 \<and> get_opcode operation \<noteq> -1 \<longrightarrow>
          drop_bit 11 w = word_of_int (get_opcode operation)) \<and>
       source_addressing inst \<in> {0, 1, 2, 3, 4} \<and>
       target_addressing inst \<in> {0, 1, 2, 3, 4} \<and>
       drop_bit 7 w AND 0xF =
         (if source_addressing inst \<noteq> 4 then push_bit (unat (source_addressing inst)) 1 else 0) \<and>
       drop_bit 3 w AND 0xF =
         (if target_addressing inst \<noteq> 4 then push_bit (unat (target_addressing inst)) 1 else 0) \<and>
       w AND 0x7 = 4)"
proof -
  define inst where "inst = fst (encode_instruction operation operands table addr)"
  have m: "source_addressing inst \<in> {0, 1, 2, 3, 4}" "target_addressing inst \<in> {0, 1, 2, 3, 4}"
    unfolding inst_def by (rule encode_instruction_modes)+
  note f = first_word_fields [OF m]
  have top: "drop_bit 15 (first_word inst) = 0"
  proof -
    have "first_word inst = first_word inst AND mask 15"
      by (simp add: first_word_def Let_def mask_eq_exp_minus_1)
    then have "drop_bit 15 (first_word inst) = drop_bit 15 (first_word inst AND mask 15)"
      by simp
    also have "\<dots> = 0"
      by (rule bit_word_eqI) (simp add: bit_simps)
    finally show ?thesis .
  qed
  have oc: "opcode inst \<noteq> -1 \<and> get_opcode operation \<noteq> -1 \<longrightarrow>
      drop_bit 11 (first_word inst) = word_of_int (get_opcode operation)"
  proof
    assume a: "opcode inst \<noteq> -1 \<and> get_opcode operation \<noteq> -1"
    then have e: "opcode inst = word_of_int (get_opcode operation)"
      using encode_instruction_opcode [of operation operands table addr] by (simp add: inst_def)
    from a get_opcode_range [of operation]
    have "(word_of_int (get_opcode operation) :: 32 word) AND 0xF =
        word_of_int (get_opcode operation)"
      by auto
    then show "drop_bit 11 (first_word inst) = word_of_int (get_opcode operation)"
      using f(1) e by simp
  qed
  show ?thesis
    unfolding Let_def inst_def [symmetric] hd_write_instruction
    using m f top oc by simp
qed

theorem first_word_layout_witness:
  "snd (hd (write_instruction (fst (encode_instruction ''mov'' (Some ''*r1,LABEL'')
        \<lparr>symbols = [\<lparr>name = ''LABEL'', address = 130, type = SYMBOL_TYPE_DATA\<rparr>],
         has_entries = False, has_externs = False, external_table = []\<rparr> 100)) 100)) = 0x214 \<and>
   drop_bit 11 (0x214 :: 32 word) = 0 \<and>
   drop_bit 7 (0x214 :: 32 word) AND 0xF = push_bit 2 1 \<and>
   drop_bit 3 (0x214 :: 32 word) AND 0xF = push_bit 1 1 \<and>
   (0x214 :: 32 word) AND 0x7 = 4"
proof -
  have i: "fst (encode_instruction ''mov'' (Some ''*r1,LABEL'')
        \<lparr>symbols = [\<lparr>name = ''LABEL'', address = 130, type = SYMBOL_TYPE_DATA\<rparr>],
         has_entries = False, has_externs = False, external_table = []\<rparr> 100) =
       \<lparr>opcode = 0, source_addressing = 2, target_addressing = 1, are = 4, source_are = 4,
        target_are = 2, source_operand = 1, target_operand = 130\<rparr>"
    by code_simp
  have e: "first_word \<lparr>opcode = 0, source_addressing = 2, target_addressing = 1, are = 4,
        source_are = 4, target_are = 2, source_operand = 1, target_operand = 130\<rparr> = 0x214"
    by code_simp
  have g: "get_opcode ''mov'' = 0" by code_simp
  show ?thesis
    using first_word_layout [of "''mov''" "Some ''*r1,LABEL''"
        "\<lparr>symbols = [\<lparr>name = ''LABEL'', address = 130, type = SYMBOL_TYPE_DATA\<rparr>],
         has_entries = False, has_externs = False, external_table = []\<rparr>" 100]
    unfolding Let_def i hd_write_instruction snd_conv e g by simp
qed

section \<open>Operands present and words written\<close>


lemma trim_head: "trim s = [] \<or> \<not> isspace (hd (trim s))"
proof (cases "dropWhile isspace s")
  case Nil
  show ?thesis unfolding trim_def Nil by simp
next
  case (Cons c cs)
  then have c: "\<not> isspace c"
    using hd_dropWhile [of isspace s] by auto
  have "dropWhile isspace (rev cs @ [c]) = dropWhile isspace (rev cs) @ [c] \<or>
        dropWhile isspace (rev cs @ [c]) = [c]"
    using c by (auto simp: dropWhile_append)
  then have "trim s = c # rev (dropWhile isspace (rev cs)) \<or> trim s = [c]"
    using Cons by (auto simp: trim_def)
  then show ?thesis using c by auto
qed

lemma trim_not_blank: "trim s \<noteq> '' ''"
  using trim_head [of s] by (auto simp: isspace_def)

lemma mode_trim_absent [simp]: "(get_addressing_mode (Some (trim s)) = 4) = (trim s = [])"
  by (simp add: mode_absent trim_not_blank)

lemma mode_empty [simp]: "get_addressing_mode (Some []) = 4"
  by (simp add: mode_absent)




lemma instruction_length_some:
  "get_instruction_length operation (Some ops) =
     (if present_operands (Some ops) \<noteq> get_operand_count operation then -1
      else if both_registers (Some ops) then 2
      else 1 + present_operands (Some ops))"
  by (auto simp: get_instruction_length_def present_operands_def both_registers_def Let_def)


section \<open>The external-reference index\<close>


lemma add_external_reference_absent:
  "\<not> list_ex (\<lambda>e. ext_name e = nm) tbl \<Longrightarrow>
   add_external_reference tbl nm addr = tbl @ [\<lparr>ext_name = nm, references = [addr]\<rparr>]"
  by (induction tbl) auto

lemma add_external_reference_present:
  "\<not> list_ex (\<lambda>x. ext_name x = nm) pre \<Longrightarrow> ext_name e = nm \<Longrightarrow>
   add_external_reference (pre @ e # post) nm addr =
     pre @ (if length (references e) < MAX_EXTERNAL_REFERENCES
            then e\<lparr>references := references e @ [addr]\<rparr> else e) # post"
  by (induction pre) auto

lemma add_external_reference_cap:
  "list_all (\<lambda>e. length (references e) \<le> MAX_EXTERNAL_REFERENCES) tbl \<Longrightarrow>
   list_all (\<lambda>e. length (references e) \<le> MAX_EXTERNAL_REFERENCES)
     (add_external_reference tbl nm addr)"
  by (induction tbl) (auto simp: MAX_EXTERNAL_REFERENCES_def)

lemma add_external_references_cap:
  "list_all (\<lambda>e. length (references e) \<le> MAX_EXTERNAL_REFERENCES) tbl \<Longrightarrow>
   list_all (\<lambda>e. length (references e) \<le> MAX_EXTERNAL_REFERENCES)
     (foldl (\<lambda>t c. add_external_reference t (fst c) (snd c)) tbl calls)"
  by (induction calls arbitrary: tbl) (auto simp: add_external_reference_cap)

text \<open>
  Claim C9. \<open>add_external_reference\<close> appends the address to the reference list of the
  (first) entry with the given name, and creates the entry, holding just that address,
  when there is none; a list that already holds 100 addresses is left unchanged. So no
  list grows beyond 100 addresses: the bound is kept by every call, and holds after any
  sequence of calls on the empty table.
\<close>

theorem add_external_reference_appends_capped:
  "(\<not> list_ex (\<lambda>e. ext_name e = nm) tbl \<longrightarrow>
      add_external_reference tbl nm addr = tbl @ [\<lparr>ext_name = nm, references = [addr]\<rparr>]) \<and>
   (\<forall>pre e post.
      tbl = pre @ e # post \<and> \<not> list_ex (\<lambda>x. ext_name x = nm) pre \<and> ext_name e = nm \<longrightarrow>
      add_external_reference tbl nm addr =
        pre @ (if length (references e) < 100 then e\<lparr>references := references e @ [addr]\<rparr>
               else e) # post) \<and>
   (list_all (\<lambda>e. length (references e) \<le> 100) tbl \<longrightarrow>
      list_all (\<lambda>e. length (references e) \<le> 100) (add_external_reference tbl nm addr)) \<and>
   list_all (\<lambda>e. length (references e) \<le> 100)
     (foldl (\<lambda>t c. add_external_reference t (fst c) (snd c)) [] calls)"
  using add_external_reference_absent [where nm = nm and tbl = tbl and addr = addr]
    add_external_reference_present [where nm = nm and addr = addr]
    add_external_reference_cap [where nm = nm and tbl = tbl and addr = addr]
    add_external_references_cap [where tbl = "[]" and calls = calls]
  by (auto simp: MAX_EXTERNAL_REFERENCES_def)

theorem add_external_reference_appends_capped_witness:
  "add_external_reference [] ''FOO'' 101 = [\<lparr>ext_name = ''FOO'', references = [101]\<rparr>] \<and>
   add_external_reference [\<lparr>ext_name = ''BAR'', references = [104]\<rparr>,
                           \<lparr>ext_name = ''FOO'', references = [101]\<rparr>] ''FOO'' 107 =
     [\<lparr>ext_name = ''BAR'', references = [104]\<rparr>, \<lparr>ext_name = ''FOO'', references = [101, 107]\<rparr>] \<and>
   add_external_reference [\<lparr>ext_name = ''FOO'', references = replicate 100 101\<rparr>] ''FOO'' 107 =
     [\<lparr>ext_name = ''FOO'', references = replicate 100 101\<rparr>]"
  using add_external_reference_appends_capped [where nm = "''FOO''" and tbl = "[]" and addr = 101
      and calls = "[]"]
    add_external_reference_appends_capped [where nm = "''FOO''" and addr = 107 and calls = "[]"
      and tbl = "[\<lparr>ext_name = ''BAR'', references = [104]\<rparr>,
                 \<lparr>ext_name = ''FOO'', references = [101]\<rparr>]",
      THEN conjunct2, THEN conjunct1, THEN spec,
      of "[\<lparr>ext_name = ''BAR'', references = [104]\<rparr>]", THEN spec,
      of "\<lparr>ext_name = ''FOO'', references = [101]\<rparr>", THEN spec, of "[]"]
    add_external_reference_appends_capped [where nm = "''FOO''" and addr = 107 and calls = "[]"
      and tbl = "[\<lparr>ext_name = ''FOO'', references = replicate 100 101\<rparr>]",
      THEN conjunct2, THEN conjunct1, THEN spec, of "[]", THEN spec,
      of "\<lparr>ext_name = ''FOO'', references = replicate 100 101\<rparr>", THEN spec, of "[]"]
  by simp

section \<open>Symbol addresses after the first pass\<close>

lemma symbol_in_range_mono:
  "symbol_in_range ic dc s \<Longrightarrow> ic \<le> ic' \<Longrightarrow> dc \<le> dc' \<Longrightarrow> symbol_in_range ic' dc' s"
  by (auto simp: symbol_in_range_def)

lemma symbols_in_range_mono:
  "list_all (symbol_in_range ic dc) syms \<Longrightarrow> ic \<le> ic' \<Longrightarrow> dc \<le> dc' \<Longrightarrow>
   list_all (symbol_in_range ic' dc') syms"
  by (induction syms) (auto intro: symbol_in_range_mono)

lemma add_symbol_symbols:
  "symbols (fst (snd (add_symbol macro_names table nm addr ty line_number error_log))) =
     symbols table \<or>
   symbols (fst (snd (add_symbol macro_names table nm addr ty line_number error_log))) =
     symbols table @ [\<lparr>name = take MAX_LABEL_LENGTH nm, address = addr, type = ty\<rparr>]"
  by (simp add: add_symbol_def)

lemma add_label_counters [simp]:
  "fp_IC (add_label macro_names label addr ty line_number st) = fp_IC st"
  "fp_DC (add_label macro_names label addr ty line_number st) = fp_DC st"
  by (simp_all add: add_label_def Let_def)

lemma add_label_symbols:
  "symbols (fp_table (add_label macro_names label addr ty line_number st)) =
     symbols (fp_table st) \<or>
   symbols (fp_table (add_label macro_names label addr ty line_number st)) =
     symbols (fp_table st) @ [\<lparr>name = take MAX_LABEL_LENGTH label, address = addr, type = ty\<rparr>]"
  using add_symbol_symbols [of macro_names "fp_table st" label addr ty line_number "fp_log st"]
  by (simp add: add_label_def Let_def)

lemma add_label_in_range:
  assumes "list_all (symbol_in_range ic dc) (symbols (fp_table st))"
    and "symbol_in_range ic dc \<lparr>name = take MAX_LABEL_LENGTH label, address = addr, type = ty\<rparr>"
  shows "list_all (symbol_in_range ic dc)
           (symbols (fp_table (add_label macro_names label addr ty line_number st)))"
  using add_label_symbols [of macro_names label addr ty line_number st] assms by auto

lemma fp_error_unchanged [simp]:
  "fp_IC (fp_error category msg line_number st) = fp_IC st"
  "fp_DC (fp_error category msg line_number st) = fp_DC st"
  "fp_table (fp_error category msg line_number st) = fp_table st"
  by (simp_all add: fp_error_def)

lemma add_externs_counters [simp]:
  "fp_IC (add_externs macro_names line_number ts st) = fp_IC st"
  "fp_DC (add_externs macro_names line_number ts st) = fp_DC st"
  by (induction ts arbitrary: st) (simp_all add: Let_def)

lemma add_externs_in_range:
  "list_all (symbol_in_range ic dc) (symbols (fp_table st)) \<Longrightarrow>
   list_all (symbol_in_range ic dc)
     (symbols (fp_table (add_externs macro_names line_number ts st)))"
proof (induction ts arbitrary: st)
  case Nil
  then show ?case by simp
next
  case (Cons token ts)
  let ?r = "add_symbol macro_names (fp_table st) token 0 SYMBOL_TYPE_EXTERNAL line_number (fp_log st)"
  have new: "symbol_in_range ic dc
      \<lparr>name = take MAX_LABEL_LENGTH token, address = 0, type = SYMBOL_TYPE_EXTERNAL\<rparr>"
    by (simp add: symbol_in_range_def)
  have "list_all (symbol_in_range ic dc) (symbols (fst (snd ?r)))"
    using add_symbol_symbols [of macro_names "fp_table st" token 0 SYMBOL_TYPE_EXTERNAL
        line_number "fp_log st"] Cons.prems new
    by auto
  then show ?case
    by (auto simp: Let_def intro!: Cons.IH)
qed

lemma present_operands_nonneg: "0 \<le> present_operands operands"
  by (simp add: present_operands_def split: option.splits)

lemma instruction_length_positive:
  "get_instruction_length operation (Some ops) = -1 \<or>
   1 \<le> get_instruction_length operation (Some ops)"
  using present_operands_nonneg [of "Some ops"]
  by (simp add: instruction_length_some)

lemma count_data_values_nonneg: "0 \<le> count_data_values operands"
  by (simp add: count_data_values_def)

lemma validate_string_length: "validate_string str \<Longrightarrow> 2 \<le> length str"
  by (auto simp: validate_string_def Let_def split: if_splits)

lemma in_range_error:
  "addresses_in_range st \<Longrightarrow> addresses_in_range (fp_error category msg line_number st)"
  by (simp add: addresses_in_range_def)

lemma in_range_data_label:
  assumes "addresses_in_range st"
  shows "addresses_in_range (add_label macro_names label (fp_DC st) SYMBOL_TYPE_DATA line_number st)"
proof -
  have "list_all (symbol_in_range (fp_IC st) (fp_DC st))
      (symbols (fp_table (add_label macro_names label (fp_DC st) SYMBOL_TYPE_DATA line_number st)))"
    using assms
    by (intro add_label_in_range) (simp_all add: addresses_in_range_def symbol_in_range_def)
  then show ?thesis using assms by (simp add: addresses_in_range_def)
qed

lemma in_range_more_data:
  assumes "addresses_in_range st" "0 \<le> n"
  shows "addresses_in_range (st\<lparr>fp_DC := fp_DC st + n\<rparr>)"
  using assms symbols_in_range_mono [of "fp_IC st" "fp_DC st" "symbols (fp_table st)"
      "fp_IC st" "fp_DC st + n"]
  by (simp add: addresses_in_range_def)

lemma in_range_more_code:
  assumes "addresses_in_range st" "1 \<le> n"
  shows "addresses_in_range (st\<lparr>fp_IC := fp_IC st + n\<rparr>)"
  using assms symbols_in_range_mono [of "fp_IC st" "fp_DC st" "symbols (fp_table st)"
      "fp_IC st + n" "fp_DC st"]
  by (simp add: addresses_in_range_def)

lemma in_range_code_label:
  assumes "addresses_in_range st" "1 \<le> n"
  shows "addresses_in_range
           ((add_label macro_names label (fp_IC st) SYMBOL_TYPE_CODE line_number st)
              \<lparr>fp_IC := fp_IC st + n\<rparr>)"
proof -
  have old: "list_all (symbol_in_range (fp_IC st + n) (fp_DC st)) (symbols (fp_table st))"
    using assms symbols_in_range_mono [of "fp_IC st" "fp_DC st" "symbols (fp_table st)"
      "fp_IC st + n" "fp_DC st"]
    by (simp add: addresses_in_range_def)
  have "list_all (symbol_in_range (fp_IC st + n) (fp_DC st))
      (symbols (fp_table (add_label macro_names label (fp_IC st) SYMBOL_TYPE_CODE line_number st)))"
    using assms old
    by (intro add_label_in_range) (simp_all add: addresses_in_range_def symbol_in_range_def)
  then show ?thesis using assms by (simp add: addresses_in_range_def)
qed

lemma in_range_entry_flag:
  "addresses_in_range st \<Longrightarrow>
   addresses_in_range (st\<lparr>fp_table := (fp_table st)\<lparr>has_entries := True\<rparr>\<rparr>)"
  by (simp add: addresses_in_range_def)

lemma in_range_externs:
  assumes "addresses_in_range st"
  shows "addresses_in_range
     ((add_externs macro_names line_number ts st)
        \<lparr>fp_table := (fp_table (add_externs macro_names line_number ts st))
                        \<lparr>has_externs := True\<rparr>\<rparr>)"
  using assms add_externs_in_range [of "fp_IC st" "fp_DC st" st macro_names line_number ts]
  by (simp add: addresses_in_range_def)

lemma dispatch_in_range:
  assumes a: "addresses_in_range st"
  shows "addresses_in_range
           (first_pass_dispatch macro_names line_number label operation operands st)"
proof (cases "is_directive operation")
  case True
  let ?st1 = "if label \<noteq> []
              then add_label macro_names label (fp_DC st) SYMBOL_TYPE_DATA line_number st else st"
  have st1: "addresses_in_range ?st1" "fp_DC ?st1 = fp_DC st"
    using a by (simp_all add: in_range_data_label)
  consider (data) "operation = ''.data''" | (string) "operation = ''.string''"
    | (entry) "operation = ''.entry''" | (extern) "operation = ''.extern''"
    using True by (auto simp: is_directive_def)
  then show ?thesis
  proof cases
    case data
    have "addresses_in_range (?st1\<lparr>fp_DC := fp_DC ?st1 + count_data_values operands\<rparr>)"
      by (rule in_range_more_data [OF st1(1) count_data_values_nonneg])
    moreover have "addresses_in_range
        (fp_error ERR_SYNTAX ''Invalid .data directive'' line_number ?st1)"
      by (rule in_range_error [OF st1(1)])
    ultimately show ?thesis
      using True data by (simp add: first_pass_dispatch_def Let_def)
  next
    case string
    have "validate_string operands \<Longrightarrow> 0 \<le> int (length operands) - 2 + 1"
      using validate_string_length [of operands] by linarith
    then have "validate_string operands \<Longrightarrow>
        addresses_in_range (?st1\<lparr>fp_DC := fp_DC ?st1 + (int (length operands) - 2 + 1)\<rparr>)"
      by (rule in_range_more_data [OF st1(1)])
    moreover have "addresses_in_range
        (fp_error ERR_SYNTAX ''Invalid .string directive'' line_number ?st1)"
      by (rule in_range_error [OF st1(1)])
    ultimately show ?thesis
      using True string by (simp add: first_pass_dispatch_def Let_def)
  next
    case entry
    then show ?thesis
      using True a by (simp add: first_pass_dispatch_def in_range_entry_flag)
  next
    case extern
    then show ?thesis
      using True a
      by (simp add: first_pass_dispatch_def Let_def in_range_externs in_range_error)
  qed
next
  case False
  let ?n = "get_instruction_length operation (Some operands)"
  let ?st1 = "if label \<noteq> []
              then add_label macro_names label (fp_IC st) SYMBOL_TYPE_CODE line_number st else st"
  have "?n \<noteq> -1 \<Longrightarrow> addresses_in_range (?st1\<lparr>fp_IC := fp_IC ?st1 + ?n\<rparr>)"
    using instruction_length_positive [of operation operands] a
    by (simp add: in_range_code_label in_range_more_code)
  then show ?thesis
    using False a by (simp add: first_pass_dispatch_def Let_def in_range_error)
qed

lemma line_in_range:
  "addresses_in_range st \<Longrightarrow> addresses_in_range (first_pass_line macro_names line_number raw st)"
  by (simp add: first_pass_line_def Let_def dispatch_in_range in_range_error)

lemma loop_in_range:
  "addresses_in_range st \<Longrightarrow>
   addresses_in_range (first_pass_loop macro_names line_number ls st)"
  by (induction ls arbitrary: st line_number) (simp_all add: line_in_range)

lemma scan_in_range:
  "addresses_in_range (first_pass_scan macro_names src init_symbol_table error_log)"
  unfolding first_pass_scan_def
  by (rule loop_in_range) (simp add: addresses_in_range_def init_symbol_table_def FIRST_ADDRESS_def)


lemma rebase_data_in_range:
  assumes "list_all (symbol_in_range ic dc) syms"
  shows "list_all (\<lambda>s. (type s = SYMBOL_TYPE_DATA \<longrightarrow> ic \<le> address s) \<and>
                       (type s = SYMBOL_TYPE_CODE \<longrightarrow> 100 \<le> address s \<and> address s < ic))
           (rebase_data ic syms)"
  using assms by (induction syms) (auto simp: rebase_data_def symbol_in_range_def)

lemma first_pass_state:
  "fst (first_pass macro_names src symbol_table error_log) =
     (first_pass_scan macro_names src symbol_table error_log)
       \<lparr>fp_table := (fp_table (first_pass_scan macro_names src symbol_table error_log))
          \<lparr>symbols := rebase_data (fp_IC (first_pass_scan macro_names src symbol_table error_log))
             (symbols (fp_table (first_pass_scan macro_names src symbol_table error_log)))\<rparr>\<rparr>"
  by (simp add: first_pass_def Let_def)

text \<open>
  Claim C6. After the first pass, the symbol table is the table the loop built with the
  final \<open>IC\<close> added to the address of every data symbol; the addresses the loop gave
  to data symbols are not negative, so every data symbol ends at an address not below
  the final \<open>IC\<close>, and every code symbol has an address from 100 up to, but below, the
  final \<open>IC\<close>.
\<close>

theorem first_pass_symbol_addresses:
  "(let scan = first_pass_scan macro_names src init_symbol_table error_log;
        st = fst (first_pass macro_names src init_symbol_table error_log)
    in fp_IC st = fp_IC scan \<and>
       symbols (fp_table st) = rebase_data (fp_IC scan) (symbols (fp_table scan)) \<and>
       (\<forall>s \<in> set (symbols (fp_table scan)). type s = SYMBOL_TYPE_DATA \<longrightarrow> 0 \<le> address s) \<and>
       (\<forall>s \<in> set (symbols (fp_table st)).
          (type s = SYMBOL_TYPE_DATA \<longrightarrow> fp_IC st \<le> address s) \<and>
          (type s = SYMBOL_TYPE_CODE \<longrightarrow> 100 \<le> address s \<and> address s < fp_IC st)))"
proof -
  define scan where "scan = first_pass_scan macro_names src init_symbol_table error_log"
  have inv: "list_all (symbol_in_range (fp_IC scan) (fp_DC scan)) (symbols (fp_table scan))"
    using scan_in_range [of macro_names src error_log]
    by (simp add: addresses_in_range_def scan_def)
  then have data: "\<forall>s \<in> set (symbols (fp_table scan)). type s = SYMBOL_TYPE_DATA \<longrightarrow> 0 \<le> address s"
    by (auto simp: list_all_iff symbol_in_range_def)
  have "\<forall>s \<in> set (rebase_data (fp_IC scan) (symbols (fp_table scan))).
          (type s = SYMBOL_TYPE_DATA \<longrightarrow> fp_IC scan \<le> address s) \<and>
          (type s = SYMBOL_TYPE_CODE \<longrightarrow> 100 \<le> address s \<and> address s < fp_IC scan)"
    using rebase_data_in_range [OF inv] by (simp add: list_all_iff)
  then show ?thesis
    unfolding Let_def first_pass_state scan_def [symmetric] using data by simp
qed

theorem first_pass_symbol_addresses_witness:
  "symbols (fp_table (first_pass_scan []
      ''MAIN: mov r1, r2\<newline>X: .data 5, 7\<newline>END: stop\<newline>S: .string \"hi\"\<newline>''
      init_symbol_table [])) =
     [\<lparr>name = ''MAIN'', address = 100, type = SYMBOL_TYPE_CODE\<rparr>,
      \<lparr>name = ''X'', address = 0, type = SYMBOL_TYPE_DATA\<rparr>,
      \<lparr>name = ''END'', address = 102, type = SYMBOL_TYPE_CODE\<rparr>,
      \<lparr>name = ''S'', address = 2, type = SYMBOL_TYPE_DATA\<rparr>] \<and>
   fp_IC (fst (first_pass []
      ''MAIN: mov r1, r2\<newline>X: .data 5, 7\<newline>END: stop\<newline>S: .string \"hi\"\<newline>''
      init_symbol_table [])) = 103 \<and>
   symbols (fp_table (fst (first_pass []
      ''MAIN: mov r1, r2\<newline>X: .data 5, 7\<newline>END: stop\<newline>S: .string \"hi\"\<newline>''
      init_symbol_table []))) =
     [\<lparr>name = ''MAIN'', address = 100, type = SYMBOL_TYPE_CODE\<rparr>,
      \<lparr>name = ''X'', address = 103, type = SYMBOL_TYPE_DATA\<rparr>,
      \<lparr>name = ''END'', address = 102, type = SYMBOL_TYPE_CODE\<rparr>,
      \<lparr>name = ''S'', address = 105, type = SYMBOL_TYPE_DATA\<rparr>]"
proof -
  have scan: "first_pass_scan []
      ''MAIN: mov r1, r2\<newline>X: .data 5, 7\<newline>END: stop\<newline>S: .string \"hi\"\<newline>''
      init_symbol_table [] =
    \<lparr>fp_table = \<lparr>symbols =
       [\<lparr>name = ''MAIN'', address = 100, type = SYMBOL_TYPE_CODE\<rparr>,
        \<lparr>name = ''X'', address = 0, type = SYMBOL_TYPE_DATA\<rparr>,
        \<lparr>name = ''END'', address = 102, type = SYMBOL_TYPE_CODE\<rparr>,
        \<lparr>name = ''S'', address = 2, type = SYMBOL_TYPE_DATA\<rparr>],
       has_entries = False, has_externs = False, external_table = []\<rparr>,
      fp_IC = 103, fp_DC = 5, fp_error_found = False, fp_log = []\<rparr>"
    by code_simp
  show ?thesis
    using first_pass_symbol_addresses [where macro_names = "[]" and error_log = "[]" and src =
      "''MAIN: mov r1, r2\<newline>X: .data 5, 7\<newline>END: stop\<newline>S: .string \"hi\"\<newline>''"]
    unfolding Let_def scan by (simp add: rebase_data_def)
qed

section \<open>Operand words: immediate operands and external references\<close>

lemma immediate_operand_value:
  "get_addressing_mode (Some operand) = 0 \<Longrightarrow>
   encode_operand operand table are_in addr is_source = (atoi (tl operand) AND 0xFFF, 4, table)"
  by (simp add: encode_operand_def)

text \<open>
  The word of an immediate operand in the target slot is the value in bits 14-3 with
  A.R.E. 4; in the source slot \<open>write_instruction\<close> has no branch for mode 0 and uses the
  register layout, the low three bits of the value in bits 8-6.
\<close>

lemma immediate_target_word:
  "target_addressing inst = 0 \<Longrightarrow> target_are inst = 4 \<Longrightarrow>
   target_word inst = push_bit 3 (target_operand inst AND 0xFFF) OR 4"
  by (simp add: target_word_def)

lemma immediate_source_word:
  "source_addressing inst = 0 \<Longrightarrow> source_are inst = 4 \<Longrightarrow>
   source_word inst = push_bit 6 (source_operand inst AND 0x7) OR 4"
  by (simp add: source_word_def)

text \<open>
  Claim C4 does not hold of the code for a source operand. For the source line
  \<open>mov #5, r1\<close> the word written for the immediate source operand, at address 101, is
  324 (octal 504), where the claim gives \<open>(5 & 0xFFF) << 3 | 4 = 44\<close> (octal 54).
\<close>

theorem source_immediate_misencoded:
  "map_option ob_lines (output_files (assemble [] ''mov #5, r1\<newline>'' [])) =
     Some [(100, 196), (101, 324), (102, 12)] \<and>
   push_bit 3 ((word_of_int (atoi ''5'') :: 32 word) AND 0xFFF) OR 4 = 44"
  by code_simp

text \<open>
  The address recorded for an external target operand is always \<open>addr + 2\<close>, while the
  word of the target operand of an instruction without a source operand is written at
  \<open>addr + 1\<close>.
\<close>

lemma external_target_recorded:
  "get_addressing_mode (Some operand) = 1 \<Longrightarrow> find_symbol table operand = Some s \<Longrightarrow>
   type s = SYMBOL_TYPE_EXTERNAL \<Longrightarrow>
   encode_operand operand table are_in addr False =
     (1, 1, table\<lparr>external_table :=
                    add_external_reference (external_table table) operand (addr + 2)\<rparr>)"
  by (simp add: encode_operand_def)

lemma unary_target_written:
  "source_addressing inst = 4 \<Longrightarrow> target_addressing inst \<noteq> 4 \<Longrightarrow>
   write_instruction inst addr = [(addr, first_word inst), (addr + 1, target_word inst)]"
  by (simp add: write_instruction_def Let_def)

text \<open>
  Claim C3 does not hold of the code. For the source \<open>.extern FOO\<close>, \<open>jmp FOO\<close> the
  operand word (value 1, external) is written at address 101, and the address recorded
  for the reference, which the \<open>.ext\<close> file lists, is 102: \<open>encode_operand\<close> records
  \<open>address + 2\<close> for every target operand, also when the instruction has no source word.
\<close>

theorem unary_external_reference_address:
  "map_option (\<lambda>out. (ob_lines out, ext_file out))
     (output_files (assemble [] ''.extern FOO\<newline>jmp FOO\<newline>'' [])) =
   Some ([(100, 18452), (101, 1)], Some [''FOO 0102''])"
  by code_simp

section \<open>Errors stop the second pass and the output files\<close>

lemma add_symbol_ok_log:
  "fst (add_symbol macro_names table nm addr ty line_number error_log) \<Longrightarrow>
   snd (snd (add_symbol macro_names table nm addr ty line_number error_log)) = error_log"
  by (simp add: add_symbol_def split: if_splits)

lemma fp_clean_refl: "fp_clean st st"
  by (simp add: fp_clean_def)

lemma fp_clean_trans: "fp_clean st st' \<Longrightarrow> fp_clean st' st'' \<Longrightarrow> fp_clean st st''"
  by (auto simp: fp_clean_def)

lemma fp_clean_error: "fp_clean st (fp_error category msg line_number st')"
  by (simp add: fp_clean_def fp_error_def)

lemma fp_clean_add_label: "fp_clean st (add_label macro_names label addr ty line_number st)"
  using add_symbol_ok_log [of macro_names "fp_table st" label addr ty line_number "fp_log st"]
  by (simp add: fp_clean_def add_label_def Let_def)

lemma fp_clean_add_externs: "fp_clean st (add_externs macro_names line_number ts st)"
proof (induction ts arbitrary: st)
  case Nil
  show ?case by (simp add: fp_clean_refl)
next
  case (Cons token ts)
  let ?r = "add_symbol macro_names (fp_table st) token 0 SYMBOL_TYPE_EXTERNAL line_number (fp_log st)"
  let ?st1 = "st\<lparr>fp_table := fst (snd ?r), fp_log := snd (snd ?r)\<rparr>"
  let ?st2 = "if fst ?r then ?st1
              else fp_error ERR_SYMBOL ''Duplicate external symbol definition'' line_number ?st1"
  have "fp_clean st ?st2"
    using add_symbol_ok_log [of macro_names "fp_table st" token 0 SYMBOL_TYPE_EXTERNAL
        line_number "fp_log st"]
    by (simp add: fp_clean_def fp_error_def)
  from fp_clean_trans [OF this Cons.IH [of ?st2]]
  show ?case by (simp add: Let_def)
qed

lemma fp_clean_update [simp]:
  "fp_clean st (st'\<lparr>fp_DC := n\<rparr>) = fp_clean st st'"
  "fp_clean st (st'\<lparr>fp_IC := n\<rparr>) = fp_clean st st'"
  "fp_clean st (st'\<lparr>fp_table := t\<rparr>) = fp_clean st st'"
  by (simp_all add: fp_clean_def)

lemma fp_clean_dispatch:
  "fp_clean st (first_pass_dispatch macro_names line_number label operation operands st)"
  by (simp add: first_pass_dispatch_def Let_def fp_clean_error fp_clean_add_label
      fp_clean_add_externs fp_clean_refl)

lemma fp_clean_line: "fp_clean st (first_pass_line macro_names line_number raw st)"
  by (simp add: first_pass_line_def Let_def fp_clean_error fp_clean_dispatch fp_clean_refl)

lemma fp_clean_loop: "fp_clean st (first_pass_loop macro_names line_number ls st)"
proof (induction ls arbitrary: st line_number)
  case Nil
  show ?case by (simp add: fp_clean_refl)
next
  case (Cons l ls)
  show ?case
    using fp_clean_trans [OF fp_clean_line Cons.IH] by simp
qed

lemma first_pass_runs_second:
  assumes "snd (first_pass macro_names src symbol_table error_log) \<noteq> None"
  shows "\<not> fp_error_found (fst (first_pass macro_names src symbol_table error_log))"
    and "fp_log (fst (first_pass macro_names src symbol_table error_log)) = error_log"
proof -
  let ?scan = "first_pass_scan macro_names src symbol_table error_log"
  have e: "\<not> fp_error_found ?scan"
    using assms by (simp add: first_pass_def Let_def split: if_splits)
  moreover have "fp_clean \<lparr>fp_table = symbol_table, fp_IC = FIRST_ADDRESS, fp_DC = 0,
      fp_error_found = False, fp_log = error_log\<rparr> ?scan"
    unfolding first_pass_scan_def by (rule fp_clean_loop)
  ultimately have "fp_log ?scan = error_log"
    by (simp add: fp_clean_def)
  then show "fp_log (fst (first_pass macro_names src symbol_table error_log)) = error_log"
    by (simp add: first_pass_def Let_def)
  show "\<not> fp_error_found (fst (first_pass macro_names src symbol_table error_log))"
    using e by (simp add: first_pass_def Let_def)
qed

lemma sp_clean_refl: "sp_clean st st"
  by (simp add: sp_clean_def)

lemma sp_clean_trans: "sp_clean st st' \<Longrightarrow> sp_clean st' st'' \<Longrightarrow> sp_clean st st''"
  by (auto simp: sp_clean_def)

lemma sp_clean_error: "sp_clean st (sp_error category msg line_number st')"
  by (simp add: sp_clean_def sp_error_def)

lemma emit_word_flags [simp]:
  "sp_error_found (emit_word w st) = sp_error_found st"
  "sp_log (emit_word w st) = sp_log st"
  by (simp_all add: emit_word_def)

lemma foldl_emit_flags:
  "sp_error_found (foldl (\<lambda>s x. emit_word (f x) s) st xs) = sp_error_found st \<and>
   sp_log (foldl (\<lambda>s x. emit_word (f x) s) st xs) = sp_log st"
  by (induction xs arbitrary: st) simp_all

lemma sp_clean_write_data: "sp_clean st (write_data data st)"
  using foldl_emit_flags [of "\<lambda>token. ucast (word_of_int (atoi token) :: 16 word) AND 0x7FFF" st]
  by (simp add: write_data_def sp_clean_def split: option.splits)

lemma sp_clean_write_string: "write_string operands st = Some st' \<Longrightarrow> sp_clean st st'"
  using foldl_emit_flags [of "\<lambda>c. word_of_nat (of_char c)" st]
  by (auto simp: write_string_def sp_clean_def split: option.splits)

lemma sp_clean_entry: "sp_clean st (handle_entry line_number symbol_name st)"
  by (simp add: handle_entry_def sp_clean_def sp_error_def split: option.splits)

lemma sp_clean_instruction: "sp_clean st (handle_instruction line_number token operands st)"
  by (simp add: handle_instruction_def Let_def sp_clean_def sp_error_def)

lemma sp_clean_line: "second_pass_line line_number raw st = Some st' \<Longrightarrow> sp_clean st st'"
  using sp_clean_write_data sp_clean_write_string sp_clean_entry sp_clean_instruction sp_clean_refl
  by (auto simp: second_pass_line_def Let_def split: if_splits option.splits)

lemma sp_clean_loop: "second_pass_loop line_number ls st = Some st' \<Longrightarrow> sp_clean st st'"
proof (induction ls arbitrary: st line_number)
  case Nil
  then show ?case by (simp add: sp_clean_refl)
next
  case (Cons l ls)
  then obtain st1 where 1: "second_pass_line (line_number + 1) l st = Some st1"
    and 2: "second_pass_loop (line_number + 1) ls st1 = Some st'"
    by (auto split: option.splits)
  from sp_clean_trans [OF sp_clean_line [OF 1] Cons.IH [OF 2]] show ?case .
qed

lemma second_pass_outputs:
  assumes "second_pass src symbol_table ic dc error_log = Some (st, Some out)"
  shows "\<not> sp_error_found st" and "sp_log st = error_log"
proof -
  let ?init = "\<lparr>sp_table = symbol_table, sp_address = FIRST_ADDRESS, sp_error_found = False,
      sp_log = error_log, sp_lines = []\<rparr>"
  from assms have l: "second_pass_loop 0 (read_lines src) ?init = Some st"
    and e: "\<not> sp_error_found st"
    by (auto simp: second_pass_def split: option.splits if_splits)
  from sp_clean_loop [OF l] e show "sp_log st = error_log"
    by (simp add: sp_clean_def)
  show "\<not> sp_error_found st" by (rule e)
qed


lemma output_files_Some:
  assumes "output_files (assemble name_buffer src error_log) = Some out"
  obtains fp sp where
    "snd (assemble name_buffer src error_log) = Some (fp, Some (Some (sp, Some out)))"
    "first_pass (map macro_name (pa_macros (pre_assembler name_buffer src error_log)))
       (expanded_file (pre_assembler name_buffer src error_log)) init_symbol_table
       (pa_log (pre_assembler name_buffer src error_log)) = (fp, Some (Some (sp, Some out)))"
proof -
  from assms obtain fp sp where
    1: "snd (assemble name_buffer src error_log) = Some (fp, Some (Some (sp, Some out)))"
    by (auto simp: output_files_def split: option.splits prod.splits)
  then have "first_pass (map macro_name (pa_macros (pre_assembler name_buffer src error_log)))
       (expanded_file (pre_assembler name_buffer src error_log)) init_symbol_table
       (pa_log (pre_assembler name_buffer src error_log)) = (fp, Some (Some (sp, Some out)))"
    by (auto simp: assemble_def Let_def split: if_splits)
  with 1 show thesis by (rule that)
qed

text \<open>
  Claim C5. The second pass runs only when the first pass found, and so logged, no
  error; output files are generated only when the second pass found, and logged, no
  error; an assembly that produces output files went through both passes without an
  error. For the source \<open>A: .data 1\<close>, \<open>A: .data 2\<close> the first pass logs the
  Symbol error "Duplicate symbol definition" (at line 2), the second pass does not run
  and no output file is produced.
\<close>

theorem passes_stopped_by_errors:
  "(snd (first_pass macro_names src symbol_table error_log) \<noteq> None \<longrightarrow>
      \<not> fp_error_found (fst (first_pass macro_names src symbol_table error_log)) \<and>
      fp_log (fst (first_pass macro_names src symbol_table error_log)) = error_log) \<and>
   (\<forall>st out. second_pass src symbol_table ic dc error_log = Some (st, Some out) \<longrightarrow>
      \<not> sp_error_found st \<and> sp_log st = error_log) \<and>
   (\<forall>out. output_files (assemble name_buffer src error_log) = Some out \<longrightarrow>
      (\<exists>fp sp. snd (assemble name_buffer src error_log) = Some (fp, Some (Some (sp, Some out))) \<and>
         \<not> fp_error_found fp \<and> \<not> sp_error_found sp \<and> sp_log sp = fp_log fp)) \<and>
   fp_log (fst (first_pass [] ''A: .data 1\<newline>A: .data 2\<newline>'' init_symbol_table [])) =
     [(ERR_SYMBOL, ''Duplicate symbol definition'', 2)] \<and>
   snd (first_pass [] ''A: .data 1\<newline>A: .data 2\<newline>'' init_symbol_table []) = None \<and>
   output_files (assemble [] ''A: .data 1\<newline>A: .data 2\<newline>'' []) = None"
proof (intro conjI allI impI)
  assume "snd (first_pass macro_names src symbol_table error_log) \<noteq> None"
  then show "\<not> fp_error_found (fst (first_pass macro_names src symbol_table error_log))"
    and "fp_log (fst (first_pass macro_names src symbol_table error_log)) = error_log"
    by (rule first_pass_runs_second)+
next
  fix st out
  assume "second_pass src symbol_table ic dc error_log = Some (st, Some out)"
  then show "\<not> sp_error_found st" and "sp_log st = error_log"
    by (rule second_pass_outputs)+
next
  fix out
  assume "output_files (assemble name_buffer src error_log) = Some out"
  then obtain fp sp where
    1: "snd (assemble name_buffer src error_log) = Some (fp, Some (Some (sp, Some out)))"
    and 2: "first_pass (map macro_name (pa_macros (pre_assembler name_buffer src error_log)))
       (expanded_file (pre_assembler name_buffer src error_log)) init_symbol_table
       (pa_log (pre_assembler name_buffer src error_log)) = (fp, Some (Some (sp, Some out)))"
    by (rule output_files_Some)
  let ?m = "map macro_name (pa_macros (pre_assembler name_buffer src error_log))"
  let ?f = "expanded_file (pre_assembler name_buffer src error_log)"
  let ?l = "pa_log (pre_assembler name_buffer src error_log)"
  have ran: "snd (first_pass ?m ?f init_symbol_table ?l) \<noteq> None" using 2 by simp
  have fp: "\<not> fp_error_found fp" "fp_log fp = ?l"
    using first_pass_runs_second [OF ran] 2 by simp_all
  have "second_pass ?f (fp_table fp) (fp_IC fp) (fp_DC fp) (fp_log fp) = Some (sp, Some out)"
    using 2 by (auto simp: first_pass_def Let_def split: if_splits)
  from second_pass_outputs [OF this] fp 1
  show "\<exists>fp sp. snd (assemble name_buffer src error_log) = Some (fp, Some (Some (sp, Some out))) \<and>
         \<not> fp_error_found fp \<and> \<not> sp_error_found sp \<and> sp_log sp = fp_log fp"
    by auto
next
  show "fp_log (fst (first_pass [] ''A: .data 1\<newline>A: .data 2\<newline>'' init_symbol_table [])) =
     [(ERR_SYMBOL, ''Duplicate symbol definition'', 2)]"
    by code_simp
  show "snd (first_pass [] ''A: .data 1\<newline>A: .data 2\<newline>'' init_symbol_table []) = None"
    by code_simp
  show "output_files (assemble [] ''A: .data 1\<newline>A: .data 2\<newline>'' []) = None"
    by code_simp
qed

theorem passes_stopped_by_errors_witness:
  "snd (first_pass [] ''stop\<newline>'' init_symbol_table []) \<noteq> None \<and>
   fp_log (fst (first_pass [] ''stop\<newline>'' init_symbol_table [])) = [] \<and>
   second_pass ''stop\<newline>'' init_symbol_table 101 0 [] =
     Some (\<lparr>sp_table = init_symbol_table, sp_address = 101, sp_error_found = False, sp_log = [],
            sp_lines = [(100, 30724)]\<rparr>,
           Some \<lparr>ob_header = (1, 0), ob_lines = [(100, 30724)], ent_file = None,
                 ext_file = None\<rparr>) \<and>
   output_files (assemble [] ''stop\<newline>'' []) =
     Some \<lparr>ob_header = (1, 0), ob_lines = [(100, 30724)], ent_file = None, ext_file = None\<rparr>"
proof -
  have 1: "snd (first_pass [] ''stop\<newline>'' init_symbol_table []) \<noteq> None"
    by code_simp
  have 2: "second_pass ''stop\<newline>'' init_symbol_table 101 0 [] =
     Some (\<lparr>sp_table = init_symbol_table, sp_address = 101, sp_error_found = False, sp_log = [],
            sp_lines = [(100, 30724)]\<rparr>,
           Some \<lparr>ob_header = (1, 0), ob_lines = [(100, 30724)], ent_file = None,
                 ext_file = None\<rparr>)"
    by code_simp
  have 3: "output_files (assemble [] ''stop\<newline>'' []) =
     Some \<lparr>ob_header = (1, 0), ob_lines = [(100, 30724)], ent_file = None, ext_file = None\<rparr>"
    by code_simp
  show ?thesis
    using passes_stopped_by_errors [where macro_names = "[]" and src = "''stop\<newline>''"
        and symbol_table = init_symbol_table and error_log = "[]" and ic = 101 and dc = 0
        and name_buffer = "[]"] 1 2 3
    by simp
qed

section \<open>The length of an instruction\<close>

lemma drop_last_space_subset: "set (drop_last_space w) \<subseteq> set w"
  by (auto simp: drop_last_space_def dest: in_set_butlastD)

lemma extra_spaces_loop_blanks:
  "\<forall>c \<in> set w. isspace c \<longrightarrow> c = CHR '' '' \<Longrightarrow>
   \<forall>c \<in> set (extra_spaces_loop in_word w cs). isspace c \<longrightarrow> c = CHR '' ''"
proof (induction cs arbitrary: in_word w)
  case Nil
  then show ?case using drop_last_space_subset [of w] by auto
next
  case (Cons c cs)
  have d: "\<forall>x \<in> set (drop_last_space w @ [CHR '','']). isspace x \<longrightarrow> x = CHR '' ''"
    using Cons.prems drop_last_space_subset [of w] by (auto simp: isspace_def)
  have b: "\<forall>x \<in> set (w @ [CHR '' '']). isspace x \<longrightarrow> x = CHR '' ''"
    using Cons.prems by auto
  have n: "\<not> isspace c \<Longrightarrow> \<forall>x \<in> set (w @ [c]). isspace x \<longrightarrow> x = CHR '' ''"
    using Cons.prems by auto
  show ?case
    using Cons.IH [OF d] Cons.IH [OF b] Cons.IH [OF Cons.prems] Cons.IH [OF n]
    by simp
qed

lemma set_trim: "set (trim s) \<subseteq> set s"
proof -
  have "set (trim s) \<subseteq> set (dropWhile isspace s)"
    unfolding trim_def using set_dropWhileD [of _ isspace "rev (dropWhile isspace s)"] by auto
  also have "\<dots> \<subseteq> set s" using set_dropWhileD [of _ isspace s] by auto
  finally show ?thesis .
qed

lemma normalize_line_blanks:
  "c \<in> set (normalize_line raw) \<Longrightarrow> isspace c \<Longrightarrow> c = CHR '' ''"
  using extra_spaces_loop_blanks [of "[]" False "handle_comment raw"]
    set_trim [of "handle_extra_spaces (handle_comment raw)"]
  by (auto simp: normalize_line_def handle_extra_spaces_def)

lemma strtok_cong:
  assumes "\<And>c. c \<in> set s \<Longrightarrow> (c \<in> set d1) = (c \<in> set d2)"
  shows "strtok d1 s = strtok d2 s"
proof -
  have 1: "dropWhile (\<lambda>c. c \<in> set d1) s = dropWhile (\<lambda>c. c \<in> set d2) s"
    using assms by (intro dropWhile_cong) auto
  have sub: "c \<in> set (dropWhile (\<lambda>c. c \<in> set d2) s) \<Longrightarrow> (c \<in> set d1) = (c \<in> set d2)" for c
    using assms set_dropWhileD by fast
  have 2: "takeWhile (\<lambda>c. c \<notin> set d1) (dropWhile (\<lambda>c. c \<in> set d2) s) =
           takeWhile (\<lambda>c. c \<notin> set d2) (dropWhile (\<lambda>c. c \<in> set d2) s)"
    using sub by (intro takeWhile_cong) auto
  have 3: "dropWhile (\<lambda>c. c \<notin> set d1) (dropWhile (\<lambda>c. c \<in> set d2) s) =
           dropWhile (\<lambda>c. c \<notin> set d2) (dropWhile (\<lambda>c. c \<in> set d2) s)"
    using sub by (intro dropWhile_cong) auto
  show ?thesis by (simp add: strtok_def Let_def 1 2 3)
qed

lemma strtok_normalized:
  "strtok blank_tab_newline (normalize_line raw) = strtok blank_tab (normalize_line raw)"
proof (rule strtok_cong)
  fix c assume "c \<in> set (normalize_line raw)"
  then have "isspace c \<Longrightarrow> c = CHR '' ''" by (rule normalize_line_blanks)
  then show "(c \<in> set blank_tab_newline) = (c \<in> set blank_tab)"
    by (auto simp: blank_tab_newline_def blank_tab_def isspace_def)
qed

lemma opcode_mnemonic:
  assumes "get_opcode m \<noteq> -1"
  shows "take MAX_LABEL_LENGTH m = m" and "\<not> is_directive m"
proof -
  from assms obtain e where "find (\<lambda>e. fst e = m) opcode_table = Some e"
    by (auto simp: get_opcode_def split: option.splits)
  then have "e \<in> set opcode_table \<and> fst e = m"
    by (auto simp: find_Some_iff)
  then have "m \<in> fst ` set opcode_table"
    by force
  then have "length m \<le> 4 \<and> \<not> is_directive m"
    by (auto simp: opcode_table_def is_directive_def)
  then show "take MAX_LABEL_LENGTH m = m" and "\<not> is_directive m"
    by (simp_all add: MAX_LABEL_LENGTH_def)
qed

lemma instruction_length_no_text:
  "get_instruction_length operation (Some []) = (if get_operand_count operation = 0 then 1 else -1)"
  by (auto simp: instruction_length_some present_operands_def both_registers_def
      scan_operands_def trim_def)


text \<open>
  The instruction branch of the second pass calls \<open>encode_instruction\<close>,
  \<open>write_instruction\<close> and \<open>get_instruction_length\<close> with the mnemonic and the operand
  string of \<open>second_pass_instruction\<close>.
\<close>

lemma second_pass_line_instruction:
  "second_pass_instruction raw = Some (token, operands) \<Longrightarrow>
   second_pass_line line_number raw st = Some (handle_instruction line_number token operands st)"
  by (auto simp: second_pass_instruction_def second_pass_line_def Let_def
      split: if_splits option.splits)

lemma fp_error_flag [simp]: "fp_error_found (fp_error category msg line_number st)"
  by (simp add: fp_error_def)

text \<open>
  A line on which the first pass finds no error is dispatched with the tokens the second
  pass finds on it: a normalised line has no tab or newline, so both passes cut it at
  the same blanks.
\<close>

lemma first_pass_line_clean:
  assumes clean: "\<not> fp_error_found (first_pass_line macro_names line_number raw st)"
    and line: "normalize_line raw \<noteq> []"
  shows "\<exists>label.
    first_pass_line macro_names line_number raw st =
      (let tok1 = strtok blank_tab (normalize_line raw);
           tok2 = (case fst tok1 of
                     Some t \<Rightarrow> if last t = CHR '':'' then strtok blank_tab (snd tok1) else tok1
                   | None \<Rightarrow> tok1)
       in first_pass_dispatch macro_names line_number label
            (case fst tok2 of Some t \<Rightarrow> take MAX_LABEL_LENGTH t | None \<Rightarrow> [])
            (case fst tok2 of
               Some t \<Rightarrow>
                 (case fst (strtok newline (snd tok2)) of
                    Some ops \<Rightarrow> trim (take MAX_LINE_LENGTH ops)
                  | None \<Rightarrow> [])
             | None \<Rightarrow> [])
            st)"
proof -
  let ?tok1 = "strtok blank_tab (normalize_line raw)"
  let ?label = "case fst ?tok1 of
                  Some t \<Rightarrow> if last t = CHR '':'' then take MAX_LABEL_LENGTH (butlast t) else []
                | None \<Rightarrow> []"
  have len: "\<not> length (normalize_line raw) > MAX_LINE_LENGTH"
    using clean line by (auto simp: first_pass_line_def Let_def)
  have "first_pass_line macro_names line_number raw st =
      (let tok1 = strtok blank_tab (normalize_line raw);
           tok2 = (case fst tok1 of
                     Some t \<Rightarrow> if last t = CHR '':'' then strtok blank_tab (snd tok1) else tok1
                   | None \<Rightarrow> tok1)
       in first_pass_dispatch macro_names line_number ?label
            (case fst tok2 of Some t \<Rightarrow> take MAX_LABEL_LENGTH t | None \<Rightarrow> [])
            (case fst tok2 of
               Some t \<Rightarrow>
                 (case fst (strtok newline (snd tok2)) of
                    Some ops \<Rightarrow> trim (take MAX_LINE_LENGTH ops)
                  | None \<Rightarrow> [])
             | None \<Rightarrow> [])
            st)"
    using clean line len
    by (auto simp: first_pass_line_def Let_def strtok_normalized split: option.splits if_splits)
  then show ?thesis by blast
qed

text \<open>
  The second pass passes a \<open>NULL\<close> operand string only for a line with nothing after
  the mnemonic. For such a line the first pass has computed the length with the empty
  operand buffer, and has found an error unless the mnemonic expects no operand. The
  second pass runs only after a first pass without error: so it passes \<open>NULL\<close> only
  for a mnemonic that expects no operand.
\<close>

lemma null_operands_after_first_pass:
  assumes call: "second_pass_instruction raw = Some (token, None)"
    and clean: "\<not> fp_error_found (first_pass_line macro_names line_number raw st)"
  shows "get_operand_count token = 0"
proof -
  let ?tok1 = "strtok blank_tab (normalize_line raw)"
  let ?tok2 = "case fst ?tok1 of
                 Some t \<Rightarrow> if last t = CHR '':'' then strtok blank_tab (snd ?tok1) else ?tok1
               | None \<Rightarrow> ?tok1"
  from call have line: "normalize_line raw \<noteq> []"
    by (auto simp: second_pass_instruction_def Let_def split: if_splits)
  from call line have tok: "fst ?tok2 = Some token" and op: "get_opcode token \<noteq> -1"
    and none: "fst (strtok newline (snd ?tok2)) = None"
    by (auto simp: second_pass_instruction_def Let_def split: if_splits option.splits)
  from first_pass_line_clean [OF clean line] obtain label where
    "first_pass_line macro_names line_number raw st =
       first_pass_dispatch macro_names line_number label (take MAX_LABEL_LENGTH token) [] st"
    using tok none by (auto simp: Let_def)
  with clean have
    "\<not> fp_error_found (first_pass_dispatch macro_names line_number label token [] st)"
    using opcode_mnemonic(1) [OF op] by simp
  then show ?thesis
    using opcode_mnemonic(2) [OF op] op
    by (auto simp: first_pass_dispatch_def Let_def instruction_length_no_text split: if_splits)
qed


lemma first_pass_loop_lines_clean:
  "\<not> fp_error_found (first_pass_loop macro_names line_number ls st) \<Longrightarrow> l \<in> set ls \<Longrightarrow>
   \<exists>n st'. \<not> fp_error_found (first_pass_line macro_names n l st')"
proof (induction ls arbitrary: line_number st)
  case Nil
  then show ?case by simp
next
  case (Cons a ls)
  let ?st1 = "first_pass_line macro_names (line_number + 1) a st"
  have end_clean: "\<not> fp_error_found (first_pass_loop macro_names (line_number + 1) ls ?st1)"
    using Cons.prems(1) by simp
  show ?case
  proof (cases "l = a")
    case True
    have "\<not> fp_error_found ?st1"
      using fp_clean_loop [of ?st1 macro_names "line_number + 1" ls] end_clean
      by (simp add: fp_clean_def)
    then show ?thesis using True by blast
  next
    case False
    then have "l \<in> set ls" using Cons.prems(2) by simp
    from Cons.IH [OF end_clean this] show ?thesis .
  qed
qed

lemma null_operands_only_without_operands:
  assumes ran: "snd (first_pass macro_names src symbol_table error_log) \<noteq> None"
    and l: "l \<in> set (read_lines src)"
    and call: "second_pass_instruction l = Some (token, None)"
  shows "get_operand_count token = 0"
proof -
  have "\<not> fp_error_found (first_pass_scan macro_names src symbol_table error_log)"
    using ran by (simp add: first_pass_def Let_def split: if_splits)
  then obtain n st' where "\<not> fp_error_found (first_pass_line macro_names n l st')"
    unfolding first_pass_scan_def using first_pass_loop_lines_clean [OF _ l] by blast
  with call show ?thesis by (rule null_operands_after_first_pass)
qed



section \<open>The pre-processor on a file without macros\<close>

lemma concat_fgets_loop: "concat (fgets_loop room cur cs) = cur @ cs"
  by (induction cs arbitrary: room cur) auto

lemma concat_read_lines: "concat (read_lines src) = src"
  by (simp add: read_lines_def concat_fgets_loop)

lemma length_fgets_loop:
  "length cur + room = MAX_LINE_LENGTH \<Longrightarrow> 1 \<le> room \<Longrightarrow>
   list_all (\<lambda>l. length l \<le> MAX_LINE_LENGTH) (fgets_loop room cur cs)"
proof (induction cs arbitrary: room cur)
  case Nil
  then show ?case by simp
next
  case (Cons c cs)
  have next_line: "list_all (\<lambda>l. length l \<le> MAX_LINE_LENGTH) (fgets_loop MAX_LINE_LENGTH [] cs)"
    by (rule Cons.IH) (simp_all add: MAX_LINE_LENGTH_def)
  show ?case
  proof (cases "c = CHR 0x0A \<or> room = 1")
    case True
    then show ?thesis using Cons.prems next_line by auto
  next
    case False
    then have "list_all (\<lambda>l. length l \<le> MAX_LINE_LENGTH) (fgets_loop (room - 1) (cur @ [c]) cs)"
      using Cons.prems by (intro Cons.IH) auto
    then show ?thesis using False by simp
  qed
qed

lemma length_read_lines: "list_all (\<lambda>l. length l \<le> MAX_LINE_LENGTH) (read_lines src)"
  unfolding read_lines_def by (rule length_fgets_loop) (simp_all add: MAX_LINE_LENGTH_def)

lemma length_trim: "length (trim s) \<le> length s"
proof -
  have "length (trim s) \<le> length (dropWhile isspace s)"
    unfolding trim_def using length_dropWhile_le [of isspace "rev (dropWhile isspace s)"] by simp
  also have "\<dots> \<le> length s" by (rule length_dropWhile_le)
  finally show ?thesis .
qed

lemma not_macr_prefix:
  "\<not> macr_definition_line l \<Longrightarrow> \<not> macr_prefixed_word l \<Longrightarrow> take 4 (trim l) \<noteq> ''macr''"
proof
  assume a: "\<not> macr_definition_line l" "\<not> macr_prefixed_word l" "take 4 (trim l) = ''macr''"
  then have "length (take 4 (trim l)) = 4" by simp
  then have "4 \<le> length (trim l)" by simp
  with a show False
    by (cases "length (trim l) = 4") (auto simp: macr_definition_line_def macr_prefixed_word_def)
qed

lemma pre_assembler_loop_plain:
  assumes "list_all (\<lambda>l. \<not> macr_definition_line l \<and> \<not> is_endmacr l \<and> \<not> macr_prefixed_word l) ls"
    and "list_all (\<lambda>l. length l \<le> MAX_LINE_LENGTH) ls"
    and "pa_macros st = []"
  shows "pre_assembler_loop ls st =
           st\<lparr>pa_line_number := pa_line_number st + int (length ls),
              pa_output := pa_output st @ ls\<rparr>"
  using assms
proof (induction ls arbitrary: st)
  case Nil
  then show ?case by simp
next
  case (Cons l ls)
  have len: "\<not> length (trim l) > MAX_LINE_LENGTH"
    using Cons.prems(2) length_trim [of l] by simp
  have syn: "take 4 (trim l) \<noteq> ''macr''" "trim l \<noteq> ''endmacr''"
    using Cons.prems(1) not_macr_prefix [of l] by (simp_all add: is_endmacr_def)
  let ?st1 = "st\<lparr>pa_line_number := pa_line_number st + 1, pa_output := pa_output st @ [l]\<rparr>"
  have "pre_assembler_loop (l # ls) st = pre_assembler_loop ls ?st1"
    using len syn Cons.prems(3) by (simp add: Let_def)
  also have "\<dots> = ?st1\<lparr>pa_line_number := pa_line_number ?st1 + int (length ls),
              pa_output := pa_output ?st1 @ ls\<rparr>"
    using Cons.prems by (intro Cons.IH) simp_all
  finally show ?case by simp
qed

text \<open>
  Claim C8, as amended. For every input file in which no line, as \<open>fgets\<close> reads it (at
  most 80 characters at a time), is a macro definition line or, once trimmed, the line
  \<open>endmacr\<close>, the pre-processor writes an output file identical to the input, defines
  no macro and reports no error. The statement leaves out the files with a line that
  begins with a longer word whose first four letters are \<open>macr\<close>: what the code does
  with such a line is shown after the theorem.
\<close>

theorem pre_assembler_plain_file:
  assumes "list_all (\<lambda>l. \<not> macr_definition_line l \<and> \<not> is_endmacr l \<and> \<not> macr_prefixed_word l)
             (read_lines src)"
  shows "expanded_file (pre_assembler name_buffer src error_log) = src \<and>
         \<not> pa_error (pre_assembler name_buffer src error_log) \<and>
         pa_macros (pre_assembler name_buffer src error_log) = [] \<and>
         pa_log (pre_assembler name_buffer src error_log) = error_log"
  using pre_assembler_loop_plain [OF assms length_read_lines,
      of "\<lparr>pa_macros = [], pa_output = [], pa_line_number = 0, pa_error = False,
          pa_log = error_log, pa_name_buffer = name_buffer\<rparr>"]
  by (simp add: pre_assembler_def expanded_file_def concat_read_lines)

text \<open>
  The claim as first stated fails for a file with no macro definition that holds an
  \<open>endmacr\<close> line: the pre-processor drops that line, as its comment and the
  specification say it should.
\<close>

theorem pre_assembler_drops_endmacr:
  "\<not> (\<forall>src. list_all (\<lambda>l. \<not> macr_definition_line l) (read_lines src) \<longrightarrow>
         expanded_file (pre_assembler [] src []) = src)"
proof
  assume a: "\<forall>src. list_all (\<lambda>l. \<not> macr_definition_line l) (read_lines src) \<longrightarrow>
         expanded_file (pre_assembler [] src []) = src"
  have "list_all (\<lambda>l. \<not> macr_definition_line l) (read_lines ''stop\<newline>endmacr\<newline>'')"
    by code_simp
  with a have "expanded_file (pre_assembler [] ''stop\<newline>endmacr\<newline>'' []) = ''stop\<newline>endmacr\<newline>''"
    by blast
  moreover have "expanded_file (pre_assembler [] ''stop\<newline>endmacr\<newline>'' []) = ''stop\<newline>''"
    by code_simp
  ultimately show False by simp
qed

theorem pre_assembler_plain_file_witness:
  "list_all (\<lambda>l. \<not> macr_definition_line l \<and> \<not> is_endmacr l \<and> \<not> macr_prefixed_word l)
     (read_lines ''MAIN: mov r1, r2\<newline>   stop'') \<and>
   expanded_file (pre_assembler [] ''MAIN: mov r1, r2\<newline>   stop'' []) =
     ''MAIN: mov r1, r2\<newline>   stop''"
proof -
  have 1: "list_all (\<lambda>l. \<not> macr_definition_line l \<and> \<not> is_endmacr l \<and> \<not> macr_prefixed_word l)
     (read_lines ''MAIN: mov r1, r2\<newline>   stop'')"
    by code_simp
  from pre_assembler_plain_file [OF 1, of "[]" "[]"] 1 show ?thesis by simp
qed

text \<open>
  The line \<open>macros: .data 1\<close> has a legal label and is no macro definition: the first
  pass alone accepts it. The pre-processor tests only the first four characters of the
  line, takes it for the definition of a macro named \<open>os:\<close>, logs "Invalid macro name",
  drops the line and fails. This is a slip of the code, not a part of the amended claim.
\<close>

lemma macr_prefix_taken_for_definition:
  "macr_prefixed_word ''macros: .data 1\<newline>'' \<and>
   \<not> macr_definition_line ''macros: .data 1\<newline>'' \<and>
   \<not> fp_error_found (fst (first_pass [] ''macros: .data 1\<newline>'' init_symbol_table [])) \<and>
   pa_error (pre_assembler [] ''macros: .data 1\<newline>'' []) \<and>
   pa_log (pre_assembler [] ''macros: .data 1\<newline>'' []) =
     [(ERR_MACRO, ''Invalid macro name'', 1)] \<and>
   expanded_file (pre_assembler [] ''macros: .data 1\<newline>'' []) = []"
  by code_simp

section \<open>The entry directive in the second pass\<close>

lemma find_split:
  "find P xs = Some x \<Longrightarrow> \<exists>pre post. xs = pre @ x # post \<and> P x \<and> \<not> list_ex P pre"
proof (induction xs)
  case Nil
  then show ?case by simp
next
  case (Cons a xs)
  show ?case
  proof (cases "P a")
    case True
    then have "a # xs = [] @ x # xs \<and> P x \<and> \<not> list_ex P []"
      using Cons.prems by simp
    then show ?thesis by blast
  next
    case False
    then obtain pre post where "xs = pre @ x # post \<and> P x \<and> \<not> list_ex P pre"
      using Cons by auto
    then have "a # xs = (a # pre) @ x # post \<and> P x \<and> \<not> list_ex P (a # pre)"
      using False by simp
    then show ?thesis by blast
  qed
qed

lemma mark_entry_split:
  "\<not> list_ex (\<lambda>x. name x = nm) pre \<Longrightarrow> name s = nm \<Longrightarrow>
   mark_entry (pre @ s # post) nm = pre @ s\<lparr>type := SYMBOL_TYPE_ENTRY\<rparr> # post"
  by (induction pre) auto

lemma find_after_mark:
  "\<not> list_ex (\<lambda>x. name x = nm) pre \<Longrightarrow> name s = nm \<Longrightarrow>
   find (\<lambda>x. name x = nm) (pre @ s\<lparr>type := SYMBOL_TYPE_ENTRY\<rparr> # post) =
     Some (s\<lparr>type := SYMBOL_TYPE_ENTRY\<rparr>)"
  by (induction pre) auto

lemma handle_entry_promotes:
  assumes "find_symbol (sp_table st) nm = Some s" "type s \<noteq> SYMBOL_TYPE_EXTERNAL"
  shows "\<exists>pre post. symbols (sp_table st) = pre @ s # post \<and>
           handle_entry line_number (Some nm) st =
             st\<lparr>sp_table := (sp_table st)\<lparr>symbols := pre @ s\<lparr>type := SYMBOL_TYPE_ENTRY\<rparr> # post,
                                          has_entries := True\<rparr>\<rparr> \<and>
           find_symbol (sp_table (handle_entry line_number (Some nm) st)) nm =
             Some (s\<lparr>type := SYMBOL_TYPE_ENTRY\<rparr>)"
proof -
  from find_split [OF assms(1) [unfolded find_symbol_def]]
  obtain pre post where sp: "symbols (sp_table st) = pre @ s # post" "name s = nm"
    "\<not> list_ex (\<lambda>x. name x = nm) pre"
    by blast
  have "handle_entry line_number (Some nm) st =
      st\<lparr>sp_table := (sp_table st)\<lparr>symbols := pre @ s\<lparr>type := SYMBOL_TYPE_ENTRY\<rparr> # post,
                                   has_entries := True\<rparr>\<rparr>"
    using assms sp mark_entry_split [OF sp(3) sp(2), of post]
    by (simp add: handle_entry_def)
  moreover have "find_symbol (sp_table (st\<lparr>sp_table := (sp_table st)
        \<lparr>symbols := pre @ s\<lparr>type := SYMBOL_TYPE_ENTRY\<rparr> # post, has_entries := True\<rparr>\<rparr>)) nm =
      Some (s\<lparr>type := SYMBOL_TYPE_ENTRY\<rparr>)"
    using find_after_mark [OF sp(3) sp(2), of post] by (simp add: find_symbol_def)
  ultimately show ?thesis using sp(1) by auto
qed

lemma strtok_whole:
  assumes "nm \<noteq> []" "list_all (\<lambda>c. c \<notin> set delims) nm"
  shows "strtok delims nm = (Some nm, [])"
proof -
  have 1: "dropWhile (\<lambda>c. c \<in> set delims) nm = nm"
    using assms by (cases nm) auto
  have 2: "takeWhile (\<lambda>c. c \<notin> set delims) nm = nm"
    using assms(2) by (simp add: list_all_iff)
  have 3: "dropWhile (\<lambda>c. c \<notin> set delims) nm = []"
    using assms(2) by (simp add: list_all_iff)
  show ?thesis using assms(1) by (simp add: strtok_def Let_def 1 2 3)
qed

lemma strtok_entry_prefix:
  "strtok blank_tab (''.entry '' @ nm) = (Some ''.entry'', nm)"
  by (simp add: strtok_def blank_tab_def)

lemma strtok_entry_alone:
  "strtok blank_tab ''.entry'' = (Some ''.entry'', [])"
  by (simp add: strtok_def blank_tab_def)

lemma strtok_empty: "strtok delims [] = (None, [])"
  by (simp add: strtok_def)

lemma second_pass_entry_line:
  assumes "normalize_line raw = ''.entry '' @ nm" "nm \<noteq> []"
    "list_all (\<lambda>c. c \<notin> set blank_tab_newline) nm"
  shows "second_pass_line line_number raw st = Some (handle_entry line_number (Some nm) st)"
proof -
  have t: "strtok blank_tab (normalize_line raw) = (Some ''.entry'', nm)"
    unfolding assms(1) by (rule strtok_entry_prefix)
  have ne: "normalize_line raw \<noteq> []"
    using assms(1) by simp
  show ?thesis
    using t ne strtok_whole [OF assms(2,3)]
    by (simp add: second_pass_line_def Let_def)
qed

lemma second_pass_entry_line_no_operand:
  assumes "normalize_line raw = ''.entry''"
  shows "second_pass_line line_number raw st = Some (handle_entry line_number None st)"
proof -
  have t: "strtok blank_tab (normalize_line raw) = (Some ''.entry'', [])"
    unfolding assms(1) by (rule strtok_entry_alone)
  have ne: "normalize_line raw \<noteq> []"
    using assms(1) by simp
  show ?thesis
    using t ne by (simp add: second_pass_line_def Let_def strtok_empty)
qed

text \<open>
  Claim C7. For an \<open>.entry NAME\<close> line of the second pass: when \<open>NAME\<close> is found in the
  symbol table and its kind is not external, the kind of that symbol becomes entry and
  \<open>has_entries\<close> is set, nothing else changing; when it is found and external, an error
  is logged; when it is not found, an error is logged; when the operand is missing, an
  error is logged. Each error also sets the error flag. For the source \<open>LOOP: inc r3\<close>,
  \<open>.entry LOOP\<close>, \<open>stop\<close> the \<open>.ent\<close> file is the one line \<open>LOOP 0100\<close>.
\<close>

theorem entry_directive_handling:
  "(\<forall>nm s. find_symbol (sp_table st) nm = Some s \<and> type s \<noteq> SYMBOL_TYPE_EXTERNAL \<longrightarrow>
      (\<exists>pre post. symbols (sp_table st) = pre @ s # post \<and>
         handle_entry line_number (Some nm) st =
           st\<lparr>sp_table := (sp_table st)\<lparr>symbols := pre @ s\<lparr>type := SYMBOL_TYPE_ENTRY\<rparr> # post,
                                        has_entries := True\<rparr>\<rparr> \<and>
         find_symbol (sp_table (handle_entry line_number (Some nm) st)) nm =
           Some (s\<lparr>type := SYMBOL_TYPE_ENTRY\<rparr>))) \<and>
   (\<forall>nm s. find_symbol (sp_table st) nm = Some s \<and> type s = SYMBOL_TYPE_EXTERNAL \<longrightarrow>
      handle_entry line_number (Some nm) st =
        st\<lparr>sp_error_found := True,
           sp_log := log_error ERR_SYMBOL ''Symbol declared as both .extern and .entry''
                       line_number (sp_log st)\<rparr>) \<and>
   (\<forall>nm. find_symbol (sp_table st) nm = None \<longrightarrow>
      handle_entry line_number (Some nm) st =
        st\<lparr>sp_error_found := True,
           sp_log := log_error ERR_SYMBOL ''Entry symbol not found in symbol table''
                       line_number (sp_log st)\<rparr>) \<and>
   handle_entry line_number None st =
     st\<lparr>sp_error_found := True,
        sp_log := log_error ERR_SYNTAX ''Missing operand for .entry directive''
                    line_number (sp_log st)\<rparr> \<and>
   (\<forall>raw nm. normalize_line raw = ''.entry '' @ nm \<and> nm \<noteq> [] \<and>
        list_all (\<lambda>c. c \<notin> set blank_tab_newline) nm \<longrightarrow>
      second_pass_line line_number raw st = Some (handle_entry line_number (Some nm) st)) \<and>
   (\<forall>raw. normalize_line raw = ''.entry'' \<longrightarrow>
      second_pass_line line_number raw st = Some (handle_entry line_number None st)) \<and>
   map_option ent_file
     (output_files (assemble [] ''LOOP: inc r3\<newline>.entry LOOP\<newline>stop\<newline>'' [])) =
     Some (Some [''LOOP 0100''])"
proof (intro conjI allI impI)
  fix nm s
  assume "find_symbol (sp_table st) nm = Some s \<and> type s \<noteq> SYMBOL_TYPE_EXTERNAL"
  then show "\<exists>pre post. symbols (sp_table st) = pre @ s # post \<and>
         handle_entry line_number (Some nm) st =
           st\<lparr>sp_table := (sp_table st)\<lparr>symbols := pre @ s\<lparr>type := SYMBOL_TYPE_ENTRY\<rparr> # post,
                                        has_entries := True\<rparr>\<rparr> \<and>
         find_symbol (sp_table (handle_entry line_number (Some nm) st)) nm =
           Some (s\<lparr>type := SYMBOL_TYPE_ENTRY\<rparr>)"
    using handle_entry_promotes [of st nm s line_number] by simp
next
  fix nm s
  assume "find_symbol (sp_table st) nm = Some s \<and> type s = SYMBOL_TYPE_EXTERNAL"
  then show "handle_entry line_number (Some nm) st =
        st\<lparr>sp_error_found := True,
           sp_log := log_error ERR_SYMBOL ''Symbol declared as both .extern and .entry''
                       line_number (sp_log st)\<rparr>"
    by (simp add: handle_entry_def sp_error_def)
next
  fix nm
  assume "find_symbol (sp_table st) nm = None"
  then show "handle_entry line_number (Some nm) st =
        st\<lparr>sp_error_found := True,
           sp_log := log_error ERR_SYMBOL ''Entry symbol not found in symbol table''
                       line_number (sp_log st)\<rparr>"
    by (simp add: handle_entry_def sp_error_def)
next
  show "handle_entry line_number None st =
     st\<lparr>sp_error_found := True,
        sp_log := log_error ERR_SYNTAX ''Missing operand for .entry directive''
                    line_number (sp_log st)\<rparr>"
    by (simp add: handle_entry_def sp_error_def)
next
  fix raw nm
  assume "normalize_line raw = ''.entry '' @ nm \<and> nm \<noteq> [] \<and>
        list_all (\<lambda>c. c \<notin> set blank_tab_newline) nm"
  then show "second_pass_line line_number raw st = Some (handle_entry line_number (Some nm) st)"
    using second_pass_entry_line [of raw nm line_number st] by simp
next
  fix raw
  assume "normalize_line raw = ''.entry''"
  then show "second_pass_line line_number raw st = Some (handle_entry line_number None st)"
    by (rule second_pass_entry_line_no_operand)
next
  show "map_option ent_file
     (output_files (assemble [] ''LOOP: inc r3\<newline>.entry LOOP\<newline>stop\<newline>'' [])) =
     Some (Some [''LOOP 0100''])"
    by code_simp
qed


theorem entry_directive_handling_witness:
  "find_symbol
     \<lparr>symbols = [\<lparr>name = ''LOOP'', address = 100, type = SYMBOL_TYPE_CODE\<rparr>,
                 \<lparr>name = ''FOO'', address = 0, type = SYMBOL_TYPE_EXTERNAL\<rparr>],
      has_entries = False, has_externs = True, external_table = []\<rparr> ''LOOP'' =
     Some \<lparr>name = ''LOOP'', address = 100, type = SYMBOL_TYPE_CODE\<rparr> \<and>
   find_symbol (sp_table (handle_entry 2 (Some ''LOOP'')
     \<lparr>sp_table = \<lparr>symbols = [\<lparr>name = ''LOOP'', address = 100, type = SYMBOL_TYPE_CODE\<rparr>,
                              \<lparr>name = ''FOO'', address = 0, type = SYMBOL_TYPE_EXTERNAL\<rparr>],
                   has_entries = False, has_externs = True, external_table = []\<rparr>,
      sp_address = 102, sp_error_found = False, sp_log = [], sp_lines = []\<rparr>)) ''LOOP'' =
     Some \<lparr>name = ''LOOP'', address = 100, type = SYMBOL_TYPE_ENTRY\<rparr> \<and>
   second_pass_line 2 ''.entry  LOOP\<newline>''
     \<lparr>sp_table = \<lparr>symbols = [\<lparr>name = ''LOOP'', address = 100, type = SYMBOL_TYPE_CODE\<rparr>,
                              \<lparr>name = ''FOO'', address = 0, type = SYMBOL_TYPE_EXTERNAL\<rparr>],
                   has_entries = False, has_externs = True, external_table = []\<rparr>,
      sp_address = 102, sp_error_found = False, sp_log = [], sp_lines = []\<rparr> =
     Some (handle_entry 2 (Some ''LOOP'')
       \<lparr>sp_table = \<lparr>symbols = [\<lparr>name = ''LOOP'', address = 100, type = SYMBOL_TYPE_CODE\<rparr>,
                                \<lparr>name = ''FOO'', address = 0, type = SYMBOL_TYPE_EXTERNAL\<rparr>],
                     has_entries = False, has_externs = True, external_table = []\<rparr>,
        sp_address = 102, sp_error_found = False, sp_log = [], sp_lines = []\<rparr>)"
proof -
  let ?tbl = "\<lparr>symbols = [\<lparr>name = ''LOOP'', address = 100, type = SYMBOL_TYPE_CODE\<rparr>,
                          \<lparr>name = ''FOO'', address = 0, type = SYMBOL_TYPE_EXTERNAL\<rparr>],
               has_entries = False, has_externs = True, external_table = []\<rparr>"
  let ?st = "\<lparr>sp_table = ?tbl, sp_address = 102, sp_error_found = False, sp_log = [],
              sp_lines = []\<rparr>"
  let ?s = "\<lparr>name = ''LOOP'', address = 100, type = SYMBOL_TYPE_CODE\<rparr>"
  have f: "find_symbol (sp_table ?st) ''LOOP'' = Some ?s \<and> type ?s \<noteq> SYMBOL_TYPE_EXTERNAL"
    by (simp add: find_symbol_def)
  have n: "normalize_line ''.entry  LOOP\<newline>'' = ''.entry '' @ ''LOOP'' \<and> ''LOOP'' \<noteq> [] \<and>
      list_all (\<lambda>c. c \<notin> set blank_tab_newline) ''LOOP''"
    by code_simp
  note t = entry_directive_handling [where st = ?st and line_number = 2]
  from t [THEN conjunct1, THEN spec, THEN spec, THEN mp, OF f]
  have 1: "find_symbol (sp_table (handle_entry 2 (Some ''LOOP'') ?st)) ''LOOP'' =
      Some (?s\<lparr>type := SYMBOL_TYPE_ENTRY\<rparr>)"
    by blast
  from t [THEN conjunct2, THEN conjunct2, THEN conjunct2, THEN conjunct2, THEN conjunct1,
      THEN spec, THEN spec, THEN mp, OF n]
  have 2: "second_pass_line 2 ''.entry  LOOP\<newline>'' ?st = Some (handle_entry 2 (Some ''LOOP'') ?st)" .
  show ?thesis
    using f 1 2 by simp
qed

end
